theory Spec2Isabelle
  imports Complex_Main "HOL-Library.Sublist"
begin

section \<open>Chat messages and the token counter (src/src/tokenizer.ts)\<close>

text \<open>
  A JavaScript string is modelled as a \<^typ>\<open>string\<close>, one list element per code unit of
  the source string, so that \<open>length\<close> is the source's \<open>.length\<close>.
\<close>

datatype role = System | User | Assistant

record message =
  role :: role
  content :: string

text \<open>
  The tokenizer \<open>llama3Tokenizer.encode\<close> comes from the package \<open>llama3-tokenizer-js\<close>,
  which is not part of the repository. Every function that counts tokens takes it as its
  first argument \<open>enc\<close>: the list of token ids of a text.
\<close>

type_synonym tokenizer = "string \<Rightarrow> nat list"

definition PER_MESSAGE_OVERHEAD :: int where
  "PER_MESSAGE_OVERHEAD = 4"

definition countTokens :: "tokenizer \<Rightarrow> string \<Rightarrow> int" where
  "countTokens enc text = int (length (enc text))"

definition countMessageTokens :: "tokenizer \<Rightarrow> message \<Rightarrow> int" where
  "countMessageTokens enc m = countTokens enc (content m) + PER_MESSAGE_OVERHEAD"

text \<open>
  The loop of \<open>trimMessagesToFitContext\<close>:
  \<^verbatim>\<open>for (let i = messages.length - 1; i >= 0; i--) { ... if (...) break; ... }\<close>.
  The counter argument of \<open>trimLoop\<close> is \<open>i + 1\<close>: at \<open>0\<close> the source's \<open>i\<close> is \<open>-1\<close>
  and the loop is left; at \<open>Suc i\<close> the body runs for index \<open>i\<close>. The loop starts at
  \<open>messages.length\<close>, so \<open>messages ! i\<close> is always read in range. The result is the final
  \<open>startIndex\<close>.
\<close>

fun trimLoop :: "tokenizer \<Rightarrow> message list \<Rightarrow> int \<Rightarrow> nat \<Rightarrow> int \<Rightarrow> nat \<Rightarrow> nat" where
  "trimLoop enc messages maxTokens 0 totalTokens startIndex = startIndex"
| "trimLoop enc messages maxTokens (Suc i) totalTokens startIndex =
     (let msgTokens = countMessageTokens enc (messages ! i) in
      if totalTokens + msgTokens > maxTokens then startIndex
      else trimLoop enc messages maxTokens i (totalTokens + msgTokens) i)"

definition trimMessagesToFitContext :: "tokenizer \<Rightarrow> message list \<Rightarrow> int \<Rightarrow> message list" where
  "trimMessagesToFitContext enc messages maxTokens =
     drop (trimLoop enc messages maxTokens (length messages) 0 (length messages)) messages"

text \<open>The cumulative framed token count of a list of messages.\<close>

definition tokensOf :: "tokenizer \<Rightarrow> message list \<Rightarrow> int" where
  "tokensOf enc ms = sum_list (map (countMessageTokens enc) ms)"

text \<open>
  A stand-in tokenizer, one token per character, used only to evaluate the definitions on
  concrete inputs.
\<close>

definition charTokenizer :: tokenizer where
  "charTokenizer text = map of_char text"

text \<open>
  The library's \<open>encode(text)\<close> as the source calls it, with no options: by default it
  puts the begin-of-text token 128000 before and the end-of-text token 128001 after the
  byte-pair tokens of the text. The byte-pair tokens of a non-empty text are given by the
  parameter \<open>bpe\<close>; an empty text has none.
\<close>

definition llama3Encode :: "(string \<Rightarrow> nat list) \<Rightarrow> tokenizer" where
  "llama3Encode bpe text = [128000] @ (if text = [] then [] else bpe text) @ [128001]"

section \<open>External services and the call trace\<close>

text \<open>
  The program talks to four remote services: the D1 database (\<open>env.DB\<close>), Workers AI
  (\<open>env.AI\<close>: the embedding model and the chat model) and the Vectorize index
  (\<open>env.VECTORIZE\<close>). None of them is code of the repository. Every call the program
  makes is recorded, with its arguments, in a trace; what the service answers is given by
  an environment that maps the trace up to and including the call to the answer, so that
  any sequence of answers and failures can occur. A thrown exception is the value
  \<open>Inl (Thrown m)\<close>, with \<open>m\<close> the \<open>message\<close> property of the thrown value if it has one.
\<close>

datatype error = Thrown "string option"

type_synonym embedding = "rat list"

record metadata =
  md_role :: string
  md_content :: string

text \<open>
  A record handed to \<open>vectorize.insert\<close>. Its \<open>values\<close> are \<open>None\<close> when the source
  passes \<open>undefined\<close> (\<open>result.data[0]\<close> of an empty \<open>data\<close> array).
\<close>

record vrecord =
  vid :: string
  vvalues :: "embedding option"
  namespace :: string
  vmetadata :: metadata

text \<open>
  A match returned by \<open>vectorize.query\<close>. A metadata field that is absent is the empty
  string: the source only tests these fields for truthiness, and \<open>undefined\<close> and \<open>''\<close>
  are both falsy.
\<close>

record vmatch =
  m_id :: string
  m_score :: rat
  m_metadata :: "metadata option"

datatype call =
    DbSelectChat string
  | DbSelectMessages string
  | DbInsertMessage string string string
  | AiEmbed "string list"
  | AiChat "message list" int
  | VzInsert "vrecord list"
  | VzQuery "embedding option" nat bool string
  | VzDeleteByIds "string list"

text \<open>
  \<open>DbInsertMessage session_id role content\<close> is the \<open>INSERT INTO messages\<close> statement (its
  fourth column is the clock reading \<open>Date.now()\<close>, left out); \<open>AiChat messages max_tokens\<close>
  is the call of the chat model; \<open>VzQuery vector topK returnMetadata namespace\<close> is
  \<open>vectorize.query\<close>, with \<open>returnMetadata\<close> true for \<open>'all'\<close>.
\<close>

record env =
  db_first :: "call list \<Rightarrow> error + (string option \<times> string option) option"
  db_all :: "call list \<Rightarrow> error + message list"
  db_run :: "call list \<Rightarrow> error + unit"
  ai_embed :: "call list \<Rightarrow> error + embedding list"
  ai_chat :: "call list \<Rightarrow> error + string option"
  vz_insert :: "call list \<Rightarrow> error + unit"
  vz_query :: "call list \<Rightarrow> error + vmatch list"
  vz_delete :: "call list \<Rightarrow> error + unit"
  clock :: "call list \<Rightarrow> string"

text \<open>
  \<open>db_first\<close> answers \<open>.first()\<close> with the row \<open>(context_template, instruct_mode)\<close>, each
  column possibly \<open>null\<close>, or with no row; \<open>db_all\<close> answers \<open>.all()\<close> with the rows
  \<open>(role, content)\<close>; \<open>ai_embed\<close> answers with \<open>result.data\<close>; \<open>ai_chat\<close> answers with
  \<open>aiResponse?.response\<close>, \<open>None\<close> when it is missing; \<open>clock\<close> is
  \<open>new Date().toUTCString()\<close>. An answer that the source cannot read (a \<open>result\<close> without
  \<open>data\<close>, for instance) makes the source throw and is an \<open>Inl\<close> like any other failure.
\<close>

definition perform :: "(call list \<Rightarrow> 'a) \<Rightarrow> call \<Rightarrow> call list \<Rightarrow> 'a \<times> call list" where
  "perform svc c tr = (svc (tr @ [c]), tr @ [c])"

section \<open>The vector store (src/src/vectorStore.ts)\<close>

text \<open>\<open>s.slice(i, j)\<close> for \<open>0 \<le> i\<close> and \<open>0 \<le> j\<close>, on strings and on arrays.\<close>

definition slice :: "'a list \<Rightarrow> nat \<Rightarrow> nat \<Rightarrow> 'a list" where
  "slice xs i j = take (j - i) (drop i xs)"

text \<open>\<open>xs.join(sep)\<close>.\<close>

fun join :: "string \<Rightarrow> string list \<Rightarrow> string" where
  "join sep [] = []"
| "join sep [x] = x"
| "join sep (x # y # ys) = x @ sep @ join sep (y # ys)"

text \<open>The decimal rendering of a non-negative integer in a template string.\<close>

definition digitChar :: "nat \<Rightarrow> char" where
  "digitChar d = ''0123456789'' ! d"

fun showNat :: "nat \<Rightarrow> string" where
  "showNat n = (if n < 10 then [digitChar n] else showNat (n div 10) @ [digitChar (n mod 10)])"

declare showNat.simps [simp del]

definition shortId :: "string \<Rightarrow> nat \<Rightarrow> string" where
  "shortId ident maxLen = (if length ident > maxLen then slice ident 0 maxLen else ident)"

definition embedText :: "env \<Rightarrow> string \<Rightarrow> call list \<Rightarrow> (error + embedding option) \<times> call list" where
  "embedText e text tr =
     (case perform (ai_embed e) (AiEmbed [text]) tr of
        (Inl err, tr1) \<Rightarrow> (Inl err, tr1)
      | (Inr data, tr1) \<Rightarrow> (Inr (case data of [] \<Rightarrow> None | v # _ \<Rightarrow> Some v), tr1))"

definition embedTextBatch :: "env \<Rightarrow> string list \<Rightarrow> call list \<Rightarrow> (error + embedding list) \<times> call list" where
  "embedTextBatch e texts tr = perform (ai_embed e) (AiEmbed texts) tr"

definition CHUNK_SIZE :: nat where
  "CHUNK_SIZE = 1500"

definition OVERLAP :: nat where
  "OVERLAP = 200"

definition BATCH_SIZE :: nat where
  "BATCH_SIZE = 20"

text \<open>
  The chunking loop of \<open>storeDocument\<close>:
  \<^verbatim>\<open>while (i < content.length) { chunks.push(content.slice(i, i + CHUNK_SIZE)); i += CHUNK_SIZE - OVERLAP; }\<close>.
  The result is \<open>None\<close> when the loop does not end.
\<close>

partial_function (option) chunkLoop :: "string \<Rightarrow> nat \<Rightarrow> string list \<Rightarrow> string list option" where
  "chunkLoop content' i chunks =
     (if i < length content'
      then chunkLoop content' (i + (CHUNK_SIZE - OVERLAP)) (chunks @ [slice content' i (i + CHUNK_SIZE)])
      else Some chunks)"

declare chunkLoop.simps [code]

text \<open>
  The record built for the embedding at position \<open>idx\<close> of a batch. \<open>batchChunks[idx]\<close>
  is \<open>undefined\<close> when the embedding service returned more embeddings than texts, and the
  template string then renders it as the text \<open>undefined\<close>.
\<close>

definition documentVector :: "string \<Rightarrow> string \<Rightarrow> string list \<Rightarrow> nat \<Rightarrow> nat \<times> embedding \<Rightarrow> vrecord" where
  "documentVector sessionId filename batchChunks batchIdx p =
     (let idx = fst p; embedding = snd p; globalIdx = batchIdx + idx;
          vectorId = ''doc::'' @ shortId sessionId 20 @ ''::'' @ shortId filename 20 @ ''::'' @ showNat globalIdx
      in \<lparr>vid = vectorId, vvalues = Some embedding, namespace = sessionId,
          vmetadata = \<lparr>md_role = ''document'',
            md_content = slice (''[Document: '' @ filename @ '']'' @ [CHR 0x0A, CHR 0x0A] @
              (if idx < length batchChunks then batchChunks ! idx else ''undefined'')) 0 8000\<rparr>\<rparr>)"

text \<open>
  The batch loop of \<open>storeDocument\<close>:
  \<^verbatim>\<open>for (let batchIdx = 0; batchIdx < chunks.length; batchIdx += BATCH_SIZE) { ... }\<close>.
  A failure of the embedding call or of the insertion leaves the loop and the function.
\<close>

function batchLoop :: "env \<Rightarrow> string \<Rightarrow> string \<Rightarrow> string list \<Rightarrow> nat \<Rightarrow> call list \<Rightarrow> (error + unit) \<times> call list" where
  "batchLoop e sessionId filename chunks batchIdx tr =
     (if batchIdx < length chunks then
        (let batchChunks = slice chunks batchIdx (batchIdx + BATCH_SIZE);
             textsToEmbed = map (\<lambda>c. slice c 0 2000) batchChunks
         in case embedTextBatch e textsToEmbed tr of
              (Inl err, tr1) \<Rightarrow> (Inl err, tr1)
            | (Inr embeddings, tr1) \<Rightarrow>
                (let vectors = map (documentVector sessionId filename batchChunks batchIdx)
                                   (enumerate 0 embeddings)
                 in case perform (vz_insert e) (VzInsert vectors) tr1 of
                      (Inl err, tr2) \<Rightarrow> (Inl err, tr2)
                    | (Inr u, tr2) \<Rightarrow> batchLoop e sessionId filename chunks (batchIdx + BATCH_SIZE) tr2))
      else (Inr (), tr))"
  by pat_completeness auto
termination
  by (relation "measure (\<lambda>(e, sessionId, filename, chunks, batchIdx, tr). length chunks - batchIdx)")
     (auto simp: BATCH_SIZE_def)

declare batchLoop.simps [simp del]

definition storeDocument :: "env \<Rightarrow> string \<Rightarrow> string \<Rightarrow> string \<Rightarrow> call list \<Rightarrow> ((error + unit) \<times> call list) option" where
  "storeDocument e sessionId filename content' tr =
     (case chunkLoop content' 0 [] of
        None \<Rightarrow> None
      | Some chunks \<Rightarrow> Some (batchLoop e sessionId filename chunks 0 tr))"

definition storeMessage :: "env \<Rightarrow> string \<Rightarrow> nat \<Rightarrow> string \<Rightarrow> string \<Rightarrow> call list \<Rightarrow> (error + unit) \<times> call list" where
  "storeMessage e sessionId messageIndex roleName text tr =
     (let textToEmbed = slice text 0 2000
      in case embedText e textToEmbed tr of
           (Inl err, tr1) \<Rightarrow> (Inl err, tr1)
         | (Inr embedding, tr1) \<Rightarrow>
             (let vectorId = shortId sessionId 48 @ ''::'' @ showNat messageIndex
              in perform (vz_insert e)
                   (VzInsert [\<lparr>vid = vectorId, vvalues = embedding, namespace = sessionId,
                      vmetadata = \<lparr>md_role = roleName, md_content = slice text 0 8000\<rparr>\<rparr>]) tr1))"

record recalled =
  r_role :: string
  r_content :: string
  r_score :: rat

text \<open>
  \<^verbatim>\<open>m.metadata && m.metadata.content\<close>: the metadata is there and its content is a non-empty
  string.
\<close>

definition hasContent :: "vmatch \<Rightarrow> bool" where
  "hasContent m = (case m_metadata m of None \<Rightarrow> False | Some md \<Rightarrow> md_content md \<noteq> [])"

text \<open>
  The mapping of a match that passed \<open>hasContent\<close>; \<open>the\<close> is the source's \<open>m.metadata!\<close>
  and is only applied behind that filter.
\<close>

definition toRecalled :: "vmatch \<Rightarrow> recalled" where
  "toRecalled m =
     \<lparr>r_role = (if md_role (the (m_metadata m)) \<noteq> [] then md_role (the (m_metadata m)) else ''user''),
      r_content = md_content (the (m_metadata m)),
      r_score = m_score m\<rparr>"

definition queryRelevantMessages :: "env \<Rightarrow> string \<Rightarrow> string \<Rightarrow> nat \<Rightarrow> call list \<Rightarrow> (error + recalled list) \<times> call list" where
  "queryRelevantMessages e sessionId queryText topK tr =
     (case embedText e (slice queryText 0 2000) tr of
        (Inl err, tr1) \<Rightarrow> (Inl err, tr1)
      | (Inr queryEmbedding, tr1) \<Rightarrow>
          (case perform (vz_query e) (VzQuery queryEmbedding topK True sessionId) tr1 of
             (Inl err, tr2) \<Rightarrow> (Inl err, tr2)
           | (Inr matches, tr2) \<Rightarrow> (Inr (map toRecalled (filter hasContent matches)), tr2)))"

text \<open>
  \<open>clearSessionVectors\<close> returns nothing and swallows every exception, so the model
  returns the trace only.
\<close>

definition clearSessionVectors :: "env \<Rightarrow> string \<Rightarrow> call list \<Rightarrow> call list" where
  "clearSessionVectors e sessionId tr =
     (let dummyVector = replicate 768 0
      in case perform (vz_query e) (VzQuery (Some dummyVector) 100 False sessionId) tr of
           (Inl err, tr1) \<Rightarrow> tr1
         | (Inr matches, tr1) \<Rightarrow>
             (if length matches > 0
              then snd (perform (vz_delete e) (VzDeleteByIds (map m_id matches)) tr1)
              else tr1))"

definition FACTS_NAMESPACE :: string where
  "FACTS_NAMESPACE = ''__global_facts__''"

record fact_hit =
  f_content :: string
  f_score :: rat

definition toFact :: "vmatch \<Rightarrow> fact_hit" where
  "toFact m = \<lparr>f_content = md_content (the (m_metadata m)), f_score = m_score m\<rparr>"

definition queryRelevantFacts :: "env \<Rightarrow> string \<Rightarrow> nat \<Rightarrow> call list \<Rightarrow> (error + fact_hit list) \<times> call list" where
  "queryRelevantFacts e queryText topK tr =
     (case embedText e (slice queryText 0 2000) tr of
        (Inl err, tr1) \<Rightarrow> (Inl err, tr1)
      | (Inr queryEmbedding, tr1) \<Rightarrow>
          (case perform (vz_query e) (VzQuery queryEmbedding topK True FACTS_NAMESPACE) tr1 of
             (Inl err, tr2) \<Rightarrow> (Inl err, tr2)
           | (Inr matches, tr2) \<Rightarrow> (Inr (map toFact (filter hasContent matches)), tr2)))"

definition clearFacts :: "env \<Rightarrow> call list \<Rightarrow> call list" where
  "clearFacts e tr =
     (let dummyVector = replicate 768 0
      in case perform (vz_query e) (VzQuery (Some dummyVector) 100 False FACTS_NAMESPACE) tr of
           (Inl err, tr1) \<Rightarrow> tr1
         | (Inr matches, tr1) \<Rightarrow>
             (if length matches > 0
              then snd (perform (vz_delete e) (VzDeleteByIds (map m_id matches)) tr1)
              else tr1))"

text \<open>
  Modelled from the spec: the vector service itself (section 6, "delete records by id
  list"; section 3, a record is identified by its id), which is not code of the
  repository. The index is the list of its records, \<open>deleteByIds\<close> removes the records
  whose id is in the list, and the ids of an index are pairwise different (\<open>uniqueIds\<close>).
\<close>

type_synonym vindex = "vrecord list"

definition deleteByIds :: "string list \<Rightarrow> vindex \<Rightarrow> vindex" where
  "deleteByIds ids idx = filter (\<lambda>r. vid r \<notin> set ids) idx"

definition uniqueIds :: "vindex \<Rightarrow> bool" where
  "uniqueIds idx = distinct (map vid idx)"

definition namespaceCount :: "string \<Rightarrow> vindex \<Rightarrow> nat" where
  "namespaceCount ns idx = length (filter (\<lambda>r. namespace r = ns) idx)"

text \<open>The ids that the delete calls of a trace ask the index to remove.\<close>

fun deleteRequests :: "call list \<Rightarrow> string list" where
  "deleteRequests [] = []"
| "deleteRequests (VzDeleteByIds ids # cs) = ids @ deleteRequests cs"
| "deleteRequests (c # cs) = deleteRequests cs"

text \<open>
  The answer of the vector service to the call \<open>c\<close> made after the trace \<open>tr\<close> has at most
  \<open>k\<close> matches (section 4.4 of the spec: a query "returns up to topK matches").
\<close>

definition answersAtMost :: "env \<Rightarrow> call list \<Rightarrow> call \<Rightarrow> nat \<Rightarrow> bool" where
  "answersAtMost e tr c k = (case vz_query e (tr @ [c]) of Inl err \<Rightarrow> True | Inr ms \<Rightarrow> length ms \<le> k)"

section \<open>The session coordinator (src/src/chatSession.ts)\<close>

definition MAX_CONTEXT_TOKENS :: int where
  "MAX_CONTEXT_TOKENS = 24000"

definition MAX_RESPONSE_TOKENS :: int where
  "MAX_RESPONSE_TOKENS = 1024"

definition MAX_RECALLED_TOKENS :: int where
  "MAX_RECALLED_TOKENS = 2000"

definition MAX_FACTS_TOKENS :: int where
  "MAX_FACTS_TOKENS = 1000"

definition RAG_TOP_K :: nat where
  "RAG_TOP_K = 5"

definition FACTS_TOP_K :: nat where
  "FACTS_TOP_K = 3"

text \<open>The fields of a \<open>ChatSession\<close> object; \<open>newSession\<close> is the object after its constructor.\<close>

record session =
  messages :: "message list"
  contextTemplate :: string
  instructMode :: string
  loaded :: bool

definition newSession :: session where
  "newSession = \<lparr>messages = [], contextTemplate = [], instructMode = [], loaded = False\<rparr>"

text \<open>\<open>x || ''\<close> for a column that may be \<open>null\<close>.\<close>

definition orEmpty :: "string option \<Rightarrow> string" where
  "orEmpty x = (case x of None \<Rightarrow> [] | Some s \<Rightarrow> s)"

text \<open>
  \<open>ensureLoaded\<close>: the whole body is one \<open>try\<close>, so a failure of either query keeps the
  fields as they are at that point, and \<open>loaded\<close> is set in every case. \<open>results\<close> is an
  array, which is truthy also when empty.
\<close>

definition ensureLoaded :: "env \<Rightarrow> string \<Rightarrow> session \<Rightarrow> call list \<Rightarrow> session \<times> call list" where
  "ensureLoaded e sessionId st tr =
     (if loaded st then (st, tr)
      else case perform (db_first e) (DbSelectChat sessionId) tr of
             (Inl err, tr1) \<Rightarrow> (st\<lparr>loaded := True\<rparr>, tr1)
           | (Inr chat, tr1) \<Rightarrow>
               (let st1 = (case chat of
                             None \<Rightarrow> st
                           | Some row \<Rightarrow> st\<lparr>contextTemplate := orEmpty (fst row),
                                             instructMode := orEmpty (snd row)\<rparr>)
                in case perform (db_all e) (DbSelectMessages sessionId) tr1 of
                     (Inl err, tr2) \<Rightarrow> (st1\<lparr>loaded := True\<rparr>, tr2)
                   | (Inr results, tr2) \<Rightarrow> (st1\<lparr>messages := results, loaded := True\<rparr>, tr2)))"

text \<open>
  \<open>s.trim()\<close>. The white space of the model is the white space of the source that fits a
  \<^typ>\<open>char\<close>: tab, line feed, vertical tab, form feed, carriage return, space and the
  no-break space.
\<close>

definition isWhiteSpace :: "char \<Rightarrow> bool" where
  "isWhiteSpace c = (c \<in> set [CHR 0x09, CHR 0x0A, CHR 0x0B, CHR 0x0C, CHR 0x0D, CHR 0x20, CHR 0xA0])"

definition trim :: "string \<Rightarrow> string" where
  "trim s = rev (dropWhile isWhiteSpace (rev (dropWhile isWhiteSpace s)))"

definition NL :: string where
  "NL = [CHR 0x0A]"

definition QUOTE :: string where
  "QUOTE = [CHR 0x22]"

text \<open>The bullet of the facts block, U+2022, as its three UTF-8 bytes.\<close>

definition BULLET :: string where
  "BULLET = [CHR 0xE2, CHR 0x80, CHR 0xA2]"

definition systemContentOf :: "string \<Rightarrow> session \<Rightarrow> string" where
  "systemContentOf now st =
     (let systemContent =
            ''You are a helpful, concise AI assistant powered by Llama 3.3 running on Cloudflare Workers AI.'' @ NL @
            ''You have memory of this conversation via Cloudflare Durable Objects and long-term memory via a vector database.'' @ NL @
            ''If '' @ QUOTE @ ''recalled memory'' @ QUOTE @ '' is provided below, use it to reference earlier parts of the conversation the user may be asking about.'' @ NL @
            ''If '' @ QUOTE @ ''known facts'' @ QUOTE @ '' are provided, treat them as established truths the user has previously stored.'' @ NL @
            ''Be direct, accurate, and friendly. Format code in markdown code blocks when relevant.'' @ NL @
            ''Current UTC time: '' @ now;
          systemContent1 =
            (if trim (instructMode st) \<noteq> []
             then systemContent @ NL @ NL @ ''Instruct mode (follow these behavioral instructions):'' @ NL @ instructMode st
             else systemContent)
      in if trim (contextTemplate st) \<noteq> []
         then systemContent1 @ NL @ NL @ ''Additional context provided by the user for this conversation:'' @ NL @ contextTemplate st
         else systemContent1)"

text \<open>
  Lines 140 to 149: the matches kept for the recalled-memory block and the block itself,
  from the answer \<open>relevant\<close> of \<open>queryRelevantMessages\<close>. A score is a JavaScript
  number; the model takes the scores as rationals and the literal \<open>0.99\<close> as \<open>99 / 100\<close>.
\<close>

definition filtered :: "string \<Rightarrow> recalled list \<Rightarrow> recalled list" where
  "filtered message relevant = filter (\<lambda>r. r_score r < 99 / 100 \<and> r_content r \<noteq> message) relevant"

definition recalledLine :: "recalled \<Rightarrow> string" where
  "recalledLine r = ''['' @ r_role r @ '']: '' @ r_content r"

definition recalledContextOf :: "string \<Rightarrow> recalled list \<Rightarrow> string" where
  "recalledContextOf message relevant =
     (if length (filtered message relevant) > 0
      then join NL (map recalledLine (filtered message relevant))
      else [])"

text \<open>Lines 128 to 152: a failure of the query leaves \<open>recalledContext\<close> empty.\<close>

definition recall :: "env \<Rightarrow> string \<Rightarrow> string \<Rightarrow> call list \<Rightarrow> string \<times> call list" where
  "recall e doId message tr =
     (case queryRelevantMessages e doId message RAG_TOP_K tr of
        (Inl err, tr1) \<Rightarrow> ([], tr1)
      | (Inr relevant, tr1) \<Rightarrow> (recalledContextOf message relevant, tr1))"

definition factsContextOf :: "fact_hit list \<Rightarrow> string" where
  "factsContextOf facts =
     (if length facts > 0
      then join NL (map (\<lambda>f. BULLET @ '' '' @ f_content f) facts)
      else [])"

text \<open>Lines 155 to 169.\<close>

definition recallFacts :: "env \<Rightarrow> string \<Rightarrow> call list \<Rightarrow> string \<times> call list" where
  "recallFacts e message tr =
     (case queryRelevantFacts e message FACTS_TOP_K tr of
        (Inl err, tr1) \<Rightarrow> ([], tr1)
      | (Inr facts, tr1) \<Rightarrow> (factsContextOf facts, tr1))"

text \<open>
  Lines 172 to 222, the token budget and the assembled prompt. \<open>if (recalledContext)\<close>
  tests for a non-empty string; \<open>recalledMessage\<close> and \<open>factsMessage\<close> are \<open>null\<close>
  (\<open>None\<close>) otherwise, and their token charges stay \<open>0\<close>.
\<close>

definition recalledMessageOf :: "string \<Rightarrow> message option" where
  "recalledMessageOf recalledContext =
     (if recalledContext \<noteq> []
      then Some \<lparr>role = System,
                 content = ''Recalled memory from earlier in this conversation:'' @ NL @ recalledContext\<rparr>
      else None)"

definition recalledTokensOf :: "tokenizer \<Rightarrow> string \<Rightarrow> int" where
  "recalledTokensOf enc recalledContext =
     (case recalledMessageOf recalledContext of
        None \<Rightarrow> 0
      | Some recalledMessage \<Rightarrow> min (countMessageTokens enc recalledMessage) MAX_RECALLED_TOKENS)"

definition factsMessageOf :: "string \<Rightarrow> message option" where
  "factsMessageOf factsContext =
     (if factsContext \<noteq> []
      then Some \<lparr>role = System, content = ''Known facts stored by the user:'' @ NL @ factsContext\<rparr>
      else None)"

definition factsTokensOf :: "tokenizer \<Rightarrow> string \<Rightarrow> int" where
  "factsTokensOf enc factsContext =
     (case factsMessageOf factsContext of
        None \<Rightarrow> 0
      | Some factsMessage \<Rightarrow> min (countMessageTokens enc factsMessage) MAX_FACTS_TOKENS)"

definition availableForHistory :: "tokenizer \<Rightarrow> message \<Rightarrow> string \<Rightarrow> string \<Rightarrow> int" where
  "availableForHistory enc systemPrompt recalledContext factsContext =
     (let systemTokens = countMessageTokens enc systemPrompt;
          recalledTokens = recalledTokensOf enc recalledContext;
          factsTokens = factsTokensOf enc factsContext
      in MAX_CONTEXT_TOKENS - MAX_RESPONSE_TOKENS - systemTokens - recalledTokens - factsTokens)"

definition finalMessagesOf :: "tokenizer \<Rightarrow> message \<Rightarrow> string \<Rightarrow> string \<Rightarrow> message list \<Rightarrow> message list" where
  "finalMessagesOf enc systemPrompt recalledContext factsContext msgs =
     (let trimmed = trimMessagesToFitContext enc msgs
                      (availableForHistory enc systemPrompt recalledContext factsContext)
      in [systemPrompt]
         @ (case factsMessageOf factsContext of None \<Rightarrow> [] | Some factsMessage \<Rightarrow> [factsMessage])
         @ (case recalledMessageOf recalledContext of None \<Rightarrow> [] | Some recalledMessage \<Rightarrow> [recalledMessage])
         @ trimmed)"

datatype response =
    ChatReply string nat
  | ChatError nat string "string option"

text \<open>
  \<open>ChatReply response messageCount\<close> is \<open>Response.json({response, messageCount})\<close>;
  \<open>ChatError status error detail\<close> is \<open>Response.json({error, detail}, {status})\<close>.
\<close>

definition FALLBACK_REPLY :: string where
  "FALLBACK_REPLY = ''Sorry, I could not generate a response.''"

text \<open>\<open>aiResponse?.response || 'Sorry, I could not generate a response.'\<close>.\<close>

definition assistantMessageOf :: "string option \<Rightarrow> string" where
  "assistantMessageOf aiResponse =
     (case aiResponse of
        None \<Rightarrow> FALLBACK_REPLY
      | Some r \<Rightarrow> if r \<noteq> [] then r else FALLBACK_REPLY)"

text \<open>
  \<open>handleTurn\<close> is \<open>ChatSession.fetch\<close> on a request \<open>POST /chat\<close> that carries the header
  \<open>x-session-id\<close> (\<open>sessionId\<close>) and the JSON body \<open>{message}\<close>, from the call of
  \<open>ensureLoaded\<close> (line 72) to the end of the branch (line 275). \<open>doId\<close> is
  \<open>this.state.id.toString()\<close>. Every \<open>try\<close> around a database or vector-store call
  swallows the exception, so only the trace of such a call is kept; the outer \<open>try\<close> of
  lines 224 to 274 catches the failure of the chat model.

  The branch is written in two parts. \<open>gatherContext\<close> is lines 72 to 169: it loads the
  session, builds the system prompt, appends the user message, persists and embeds it and
  queries the two memories; it returns the session, the system prompt, \<open>recalledContext\<close>,
  \<open>factsContext\<close> and the trace. \<open>handleTurn\<close> goes on with lines 171 to 275.
\<close>

definition gatherContext :: "env \<Rightarrow> string \<Rightarrow> string \<Rightarrow> string \<Rightarrow> session \<Rightarrow> call list \<Rightarrow> session \<times> message \<times> string \<times> string \<times> call list" where
  "gatherContext e doId sessionId message st tr =
     (let (st0, tr0) = ensureLoaded e sessionId st tr;
          systemPrompt = \<lparr>role = System, content = systemContentOf (clock e tr0) st0\<rparr>;
          st1 = st0\<lparr>messages := messages st0 @ [\<lparr>role = User, content = message\<rparr>]\<rparr>;
          currentMsgIndex = length (messages st1) - 1;
          tr1 = snd (perform (db_run e) (DbInsertMessage sessionId ''user'' message) tr0);
          tr2 = snd (storeMessage e doId currentMsgIndex ''user'' message tr1);
          (recalledContext, tr3) = recall e doId message tr2;
          (factsContext, tr4) = recallFacts e message tr3
      in (st1, systemPrompt, recalledContext, factsContext, tr4))"

definition handleTurn :: "env \<Rightarrow> tokenizer \<Rightarrow> string \<Rightarrow> string \<Rightarrow> string \<Rightarrow> session \<Rightarrow> call list \<Rightarrow> response \<times> session \<times> call list" where
  "handleTurn e enc doId sessionId message st tr =
     (case gatherContext e doId sessionId message st tr of
        (st1, systemPrompt, recalledContext, factsContext, tr4) \<Rightarrow>
          (let finalMessages = finalMessagesOf enc systemPrompt recalledContext factsContext (messages st1)
           in case perform (ai_chat e) (AiChat finalMessages MAX_RESPONSE_TOKENS) tr4 of
                (Inl (Thrown detail), tr5) \<Rightarrow> (ChatError 500 ''AI inference failed'' detail, st1, tr5)
              | (Inr aiResponse, tr5) \<Rightarrow>
                  (let assistantMessage = assistantMessageOf aiResponse;
                       st2 = st1\<lparr>messages := messages st1 @ [\<lparr>role = Assistant, content = assistantMessage\<rparr>]\<rparr>;
                       tr6 = snd (perform (db_run e) (DbInsertMessage sessionId ''assistant'' assistantMessage) tr5);
                       tr7 = snd (storeMessage e doId (length (messages st2) - 1) ''assistant'' assistantMessage tr6)
                   in (ChatReply assistantMessage (length (messages st2)), st2, tr7))))"

text \<open>
  A sequence of \<open>POST /chat\<close> requests handled one after the other by the same object (the
  runtime runs at most one request of an object at a time), with the responses collected.
\<close>

fun handleTurns :: "env \<Rightarrow> tokenizer \<Rightarrow> string \<Rightarrow> string \<Rightarrow> string list \<Rightarrow> session \<Rightarrow> call list \<Rightarrow> response list \<times> session \<times> call list" where
  "handleTurns e enc doId sessionId [] st tr = ([], st, tr)"
| "handleTurns e enc doId sessionId (m # ms) st tr =
     (case handleTurn e enc doId sessionId m st tr of
        (r, st1, tr1) \<Rightarrow>
          (case handleTurns e enc doId sessionId ms st1 tr1 of
             (rs, st2, tr2) \<Rightarrow> (r # rs, st2, tr2)))"

definition isReply :: "response \<Rightarrow> bool" where
  "isReply r = (case r of ChatReply t n \<Rightarrow> True | ChatError s err d \<Rightarrow> False)"

text \<open>The reply text of a response, empty for an error response.\<close>

definition replyText :: "response \<Rightarrow> string" where
  "replyText r = (case r of ChatReply t n \<Rightarrow> t | ChatError s err d \<Rightarrow> [])"

text \<open>The records that the insert calls of a trace hand to the vector index.\<close>

fun insertedRecords :: "call list \<Rightarrow> vrecord list" where
  "insertedRecords [] = []"
| "insertedRecords (VzInsert vs # cs) = vs @ insertedRecords cs"
| "insertedRecords (c # cs) = insertedRecords cs"

text \<open>The role string that \<open>handleTurn\<close> passes to \<open>storeMessage\<close> for a message it appends.\<close>

definition roleName :: "role \<Rightarrow> string" where
  "roleName r = (case r of System \<Rightarrow> ''system'' | User \<Rightarrow> ''user'' | Assistant \<Rightarrow> ''assistant'')"

text \<open>
  \<open>recordOf doId i m v\<close>: the vector record \<open>v\<close> is the one that \<open>storeMessage\<close> builds for
  the message \<open>m\<close> stored under the sequence index \<open>i\<close> in the namespace \<open>doId\<close>.
\<close>

definition recordOf :: "string \<Rightarrow> nat \<Rightarrow> message \<Rightarrow> vrecord \<Rightarrow> bool" where
  "recordOf doId i m v =
     (vid v = shortId doId 48 @ ''::'' @ showNat i \<and> namespace v = doId
      \<and> vmetadata v = \<lparr>md_role = roleName (role m), md_content = slice (content m) 0 8000\<rparr>)"

section \<open>Concrete environments\<close>

text \<open>
  Environments and an index used only to evaluate the definitions on concrete inputs.
  In \<open>quietEnv\<close> every service answers, with no stored rows, one embedding \<open>[0]\<close>, no
  match, and the reply \<open>Hello\<close> of the chat model; the other environments differ from
  it in one or two services: in \<open>lossyEnv\<close> the database writes and the vector insertions
  fail, in \<open>failingEnv\<close> the chat model throws, in \<open>silentEnv\<close> it returns no response
  text, in \<open>fourEnv\<close> the embedding model returns four embeddings, in \<open>hundredEnv\<close> the
  index answers every query with \<open>firstHundred\<close>. \<open>bigIndex\<close> holds 102 records of the
  namespace \<open>s-1\<close>, with the ids \<open>x\<close>, \<open>xx\<close>, \<open>xxx\<close> and so on, and \<open>firstHundred\<close> is an
  answer of the index that names the first 100 of them.
\<close>

definition quietEnv :: env where
  "quietEnv =
     \<lparr>db_first = (\<lambda>tr. Inr None), db_all = (\<lambda>tr. Inr []), db_run = (\<lambda>tr. Inr ()),
      ai_embed = (\<lambda>tr. Inr [[0]]), ai_chat = (\<lambda>tr. Inr (Some ''Hello'')),
      vz_insert = (\<lambda>tr. Inr ()), vz_query = (\<lambda>tr. Inr []), vz_delete = (\<lambda>tr. Inr ()),
      clock = (\<lambda>tr. ''Mon, 02 Nov 2026 10:00:00 GMT'')\<rparr>"

definition firstHundred :: "vmatch list" where
  "firstHundred =
     map (\<lambda>k. \<lparr>m_id = replicate (Suc k) (CHR ''x''), m_score = 0, m_metadata = None\<rparr>) [0..<100]"

definition lossyEnv :: env where
  "lossyEnv = quietEnv\<lparr>db_run := (\<lambda>tr. Inl (Thrown None)), vz_insert := (\<lambda>tr. Inl (Thrown None))\<rparr>"


definition silentEnv :: env where
  "silentEnv = quietEnv\<lparr>ai_chat := (\<lambda>tr. Inr None)\<rparr>"

definition fourEnv :: env where
  "fourEnv = quietEnv\<lparr>ai_embed := (\<lambda>tr. Inr [[0], [1], [2], [3]])\<rparr>"

definition hundredEnv :: env where
  "hundredEnv = quietEnv\<lparr>vz_query := (\<lambda>tr. Inr firstHundred)\<rparr>"

definition bigIndex :: vindex where
  "bigIndex =
     map (\<lambda>k. \<lparr>vid = replicate (Suc k) (CHR ''x''), vvalues = None, namespace = ''s-1'',
                 vmetadata = \<lparr>md_role = ''user'', md_content = ''m''\<rparr>\<rparr>) [0..<102]"

section \<open>Auxiliary lemmas\<close>


lemma countMessageTokens_ge: "4 \<le> countMessageTokens enc m"
  by (simp add: countMessageTokens_def countTokens_def PER_MESSAGE_OVERHEAD_def)

lemma tokensOf_Nil: "tokensOf enc [] = 0"
  by (simp add: tokensOf_def)

lemma tokensOf_Cons: "tokensOf enc (m # ms) = countMessageTokens enc m + tokensOf enc ms"
  by (simp add: tokensOf_def)

lemma tokensOf_append: "tokensOf enc (xs @ ys) = tokensOf enc xs + tokensOf enc ys"
  by (simp add: tokensOf_def)

lemma tokensOf_nonneg: "0 \<le> tokensOf enc ms"
proof (induction ms)
  case Nil
  show ?case by (simp add: tokensOf_Nil)
next
  case (Cons m ms)
  have "4 \<le> countMessageTokens enc m" by (rule countMessageTokens_ge)
  with Cons show ?case by (simp add: tokensOf_Cons)
qed

lemma tokensOf_pos: "ms \<noteq> [] \<Longrightarrow> 4 \<le> tokensOf enc ms"
proof (cases ms)
  case Nil
  assume "ms \<noteq> []"
  with Nil show ?thesis by simp
next
  case (Cons m ms')
  have "4 \<le> countMessageTokens enc m" by (rule countMessageTokens_ge)
  moreover have "0 \<le> tokensOf enc ms'" by (rule tokensOf_nonneg)
  ultimately show ?thesis using Cons by (simp add: tokensOf_Cons)
qed

lemma tokensOf_drop_Suc:
  assumes "i < length ms"
  shows "tokensOf enc (drop i ms) = countMessageTokens enc (ms ! i) + tokensOf enc (drop (Suc i) ms)"
proof -
  have "drop i ms = ms ! i # drop (Suc i) ms"
    using assms by (simp add: Cons_nth_drop_Suc)
  then show ?thesis by (simp add: tokensOf_Cons)
qed

lemma tokensOf_drop_mono:
  assumes "j \<le> k"
  shows "tokensOf enc (drop k ms) \<le> tokensOf enc (drop j ms)"
proof -
  have "drop j ms = take (k - j) (drop j ms) @ drop k ms"
    using assms by (metis append_take_drop_id drop_drop le_add_diff_inverse2)
  then have "tokensOf enc (drop j ms) = tokensOf enc (take (k - j) (drop j ms)) + tokensOf enc (drop k ms)"
    by (metis tokensOf_append)
  then show ?thesis using tokensOf_nonneg [of enc "take (k - j) (drop j ms)"] by simp
qed

lemma trimLoop_le: "trimLoop enc ms b k tot k \<le> k"
proof (induction k arbitrary: tot)
  case 0
  show ?case by simp
next
  case (Suc i)
  show ?case using Suc [of "tot + countMessageTokens enc (ms ! i)"]
    by (simp add: Let_def)
qed

lemma trimLoop_fits:
  assumes "k \<le> length ms" and "tot = tokensOf enc (drop k ms)" and "tot \<le> b"
  shows "tokensOf enc (drop (trimLoop enc ms b k tot k) ms) \<le> b"
  using assms
proof (induction k arbitrary: tot)
  case 0
  then show ?case by simp
next
  case (Suc i)
  have i: "i < length ms" using Suc.prems(1) by simp
  show ?case
  proof (cases "tot + countMessageTokens enc (ms ! i) > b")
    case True
    then show ?thesis using Suc.prems by simp
  next
    case False
    have "tokensOf enc (drop i ms) = tot + countMessageTokens enc (ms ! i)"
      using tokensOf_drop_Suc [OF i, of enc] Suc.prems(2) by simp
    then have "tokensOf enc (drop (trimLoop enc ms b i (tot + countMessageTokens enc (ms ! i)) i) ms) \<le> b"
      using Suc.IH [of "tot + countMessageTokens enc (ms ! i)"] i False by simp
    then show ?thesis using False by (simp add: Let_def)
  qed
qed

lemma trimLoop_stops:
  assumes "k \<le> length ms" and "tot = tokensOf enc (drop k ms)"
  shows "trimLoop enc ms b k tot k = 0
       \<or> b < tokensOf enc (drop (trimLoop enc ms b k tot k - 1) ms)"
  using assms
proof (induction k arbitrary: tot)
  case 0
  then show ?case by simp
next
  case (Suc i)
  have i: "i < length ms" using Suc.prems(1) by simp
  have step: "tokensOf enc (drop i ms) = tot + countMessageTokens enc (ms ! i)"
    using tokensOf_drop_Suc [OF i, of enc] Suc.prems(2) by simp
  show ?case
  proof (cases "tot + countMessageTokens enc (ms ! i) > b")
    case True
    then show ?thesis using step by simp
  next
    case False
    then show ?thesis
      using Suc.IH [of "tot + countMessageTokens enc (ms ! i)"] i step by (simp add: Let_def)
  qed
qed

lemma trim_suffix: "suffix (trimMessagesToFitContext enc ms b) ms"
  by (simp add: trimMessagesToFitContext_def suffix_drop)

lemma trim_length:
  "length (trimMessagesToFitContext enc ms b) = length ms - trimLoop enc ms b (length ms) 0 (length ms)"
  by (simp add: trimMessagesToFitContext_def)

lemma trim_fits:
  assumes "0 \<le> b"
  shows "tokensOf enc (trimMessagesToFitContext enc ms b) \<le> b"
  unfolding trimMessagesToFitContext_def
  by (rule trimLoop_fits) (simp_all add: tokensOf_Nil assms)

lemma trim_longest:
  assumes "suffix s ms" and "tokensOf enc s \<le> b"
  shows "length s \<le> length (trimMessagesToFitContext enc ms b)"
proof -
  define r where "r = trimLoop enc ms b (length ms) 0 (length ms)"
  have rle: "r \<le> length ms" unfolding r_def by (rule trimLoop_le)
  obtain p where p: "ms = p @ s" using assms(1) by (auto simp: suffix_def)
  then have s: "s = drop (length p) ms" by simp
  have len: "length ms = length p + length s" using p by simp
  have stop: "r = 0 \<or> b < tokensOf enc (drop (r - 1) ms)"
    unfolding r_def by (rule trimLoop_stops) (simp_all add: tokensOf_Nil)
  have "r \<le> length p"
  proof (rule ccontr)
    assume "\<not> r \<le> length p"
    then have lt: "length p \<le> r - 1" and r0: "r \<noteq> 0" by simp_all
    have "tokensOf enc (drop (r - 1) ms) \<le> tokensOf enc (drop (length p) ms)"
      using lt by (rule tokensOf_drop_mono)
    then show False using stop r0 assms(2) s by simp
  qed
  moreover have "length (trimMessagesToFitContext enc ms b) = length ms - r"
    unfolding r_def by (rule trim_length)
  ultimately show ?thesis using len rle by linarith
qed

lemma trim_negative:
  assumes "b < 0"
  shows "trimMessagesToFitContext enc ms b = []"
proof (cases "length ms")
  case 0
  then show ?thesis by (simp add: trimMessagesToFitContext_def)
next
  case (Suc i)
  have "4 \<le> countMessageTokens enc (ms ! i)" by (rule countMessageTokens_ge)
  then have "trimLoop enc ms b (Suc i) 0 (Suc i) = Suc i" using assms by simp
  then show ?thesis using Suc by (simp add: trimMessagesToFitContext_def)
qed

lemma trim_newest_too_big:
  assumes "ms \<noteq> []" and "b < countMessageTokens enc (last ms)"
  shows "trimMessagesToFitContext enc ms b = []"
proof (cases "length ms")
  case 0
  then show ?thesis using assms by simp
next
  case (Suc i)
  have "last ms = ms ! i" using assms(1) Suc by (simp add: last_conv_nth)
  then have "trimLoop enc ms b (Suc i) 0 (Suc i) = Suc i" using assms by simp
  then show ?thesis using Suc by (simp add: trimMessagesToFitContext_def)
qed



lemma stride: "CHUNK_SIZE - OVERLAP = 1300"
  by (simp add: CHUNK_SIZE_def OVERLAP_def)


lemma chunkLoop_done: "\<not> i < length c \<Longrightarrow> chunkLoop c i chunks = Some chunks"
  by (subst chunkLoop.simps) simp

lemma chunkLoop_step:
  "i < length c \<Longrightarrow> chunkLoop c i chunks = chunkLoop c (i + 1300) (chunks @ [slice c i (i + 1500)])"
  by (subst chunkLoop.simps) (simp add: CHUNK_SIZE_def OVERLAP_def)

lemma chunkLoop_eq:
  "chunkLoop c i chunks =
     Some (chunks @ map (\<lambda>k. slice c (i + k * 1300) (i + k * 1300 + 1500))
                        [0..<(length c - i + 1299) div 1300])"
proof (induction "length c - i" arbitrary: i chunks rule: less_induct)
  case less
  show ?case
  proof (cases "i < length c")
    case False
    then have "(length c - i + 1299) div 1300 = 0" by simp
    then show ?thesis using False by (simp add: chunkLoop_done)
  next
    case True
    define n where "n = (length c - (i + 1300) + 1299) div 1300"
    have cnt: "(length c - i + 1299) div 1300 = Suc n"
    proof (cases "length c - i < 1300")
      case small: True
      have "1300 \<le> length c - i + 1299" and "length c - i + 1299 < 2 * 1300"
        using True small by simp_all
      then have "(length c - i + 1299) div 1300 = 1"
        by (simp add: div_nat_eqI)
      moreover have "n = 0" unfolding n_def using small by simp
      ultimately show ?thesis by simp
    next
      case big: False
      have "length c - i + 1299 = (length c - (i + 1300) + 1299) + 1300"
        using big by simp
      then have "(length c - i + 1299) div 1300 = (length c - (i + 1300) + 1299) div 1300 + 1"
        by (metis div_add_self2 zero_neq_numeral)
      then show ?thesis unfolding n_def by simp
    qed
    have "chunkLoop c (i + 1300) (chunks @ [slice c i (i + 1500)]) =
        Some ((chunks @ [slice c i (i + 1500)]) @
          map (\<lambda>k. slice c (i + 1300 + k * 1300) (i + 1300 + k * 1300 + 1500)) [0..<n])"
      unfolding n_def using True by (intro less) simp
    moreover have "map (\<lambda>k. slice c (i + k * 1300) (i + k * 1300 + 1500)) [0..<Suc n]
        = slice c i (i + 1500) # map (\<lambda>k. slice c (i + 1300 + k * 1300) (i + 1300 + k * 1300 + 1500)) [0..<n]"
      by (simp add: upt_conv_Cons map_Suc_upt [symmetric] del: upt_Suc) (simp add: algebra_simps)
    ultimately show ?thesis using True cnt by (simp add: chunkLoop_step)
  qed
qed

lemma chunks_4000:
  assumes "length c = 4000"
  shows "chunkLoop c 0 [] = Some [slice c 0 1500, slice c 1300 2800, slice c 2600 4100, slice c 3900 5400]"
proof -
  have "[0..<4] = [0, 1, 2, 3::nat]" by (simp add: upt_conv_Cons)
  then show ?thesis using assms by (simp add: chunkLoop_eq)
qed


lemma showNat_digit: "n < 10 \<Longrightarrow> showNat n = [digitChar n]"
  by (subst showNat.simps) simp

lemma showNat_0_3:
  "showNat 0 = ''0''" "showNat 1 = ''1''" "showNat 2 = ''2''" "showNat 3 = ''3''"
  by (simp_all add: showNat_digit digitChar_def)

lemma batchLoop_done: "\<not> batchIdx < length chunks \<Longrightarrow> batchLoop e sid fn chunks batchIdx tr = (Inr (), tr)"
  by (subst batchLoop.simps) simp

lemma batchLoop_single:
  assumes "chunks \<noteq> []" and "length chunks \<le> 20" and "\<forall>c \<in> set chunks. length c \<le> 2000"
    and "ai_embed e (tr @ [AiEmbed chunks]) = Inr es"
  shows "\<exists>res. batchLoop e sid fn chunks 0 tr =
           (res, tr @ [AiEmbed chunks, VzInsert (map (documentVector sid fn chunks 0) (enumerate 0 es))])"
proof -
  have b: "slice chunks 0 BATCH_SIZE = chunks"
    using assms(2) by (simp add: slice_def BATCH_SIZE_def)
  have t: "map (\<lambda>c. slice c 0 2000) chunks = chunks"
    using assms(3) by (simp add: slice_def map_idI)
  have d: "batchLoop e sid fn chunks BATCH_SIZE tr' = (Inr (), tr')" for tr'
    using assms(2) by (intro batchLoop_done) (simp add: BATCH_SIZE_def)
  show ?thesis
    using assms(1,4)
    by (subst batchLoop.simps)
       (simp add: b t d Let_def embedTextBatch_def perform_def split: sum.splits)
qed

lemma vectors4_ids:
  assumes "length es = 4"
  shows "map vid (map (documentVector sid fn chunks 0) (enumerate 0 es)) =
           map (\<lambda>k. ''doc::'' @ shortId sid 20 @ ''::'' @ shortId fn 20 @ ''::'' @ k)
               [''0'', ''1'', ''2'', ''3'']"
proof -
  obtain a b c d where es: "es = [a, b, c, d]"
    using assms by (auto simp: length_Suc_conv eval_nat_numeral)
  show ?thesis
    by (simp add: es documentVector_def Let_def showNat_0_3 One_nat_def [symmetric] del: One_nat_def)
qed

lemma vectors_values:
  "map vvalues (map (documentVector sid fn chunks b) (enumerate n es)) = map Some es"
  by (induction es arbitrary: n) (simp_all add: documentVector_def Let_def)

lemma vectors_namespace:
  "v \<in> set (map (documentVector sid fn chunks b) (enumerate n es)) \<Longrightarrow> namespace v = sid"
  by (auto simp: documentVector_def Let_def)


lemma deleteRequests_append: "deleteRequests (xs @ ys) = deleteRequests xs @ deleteRequests ys"
  by (induction xs rule: deleteRequests.induct) simp_all

lemma deleted_bound:
  assumes "uniqueIds idx"
  shows "length (filter (\<lambda>r. vid r \<in> set ids) idx) \<le> length ids"
proof -
  have d: "distinct (map vid (filter (\<lambda>r. vid r \<in> set ids) idx))"
    using assms by (simp add: uniqueIds_def distinct_map_filter)
  have "length (filter (\<lambda>r. vid r \<in> set ids) idx) = card (set (map vid (filter (\<lambda>r. vid r \<in> set ids) idx)))"
    using distinct_card [OF d] by simp
  also have "\<dots> \<le> card (set ids)"
    by (rule card_mono) auto
  also have "\<dots> \<le> length ids" by (rule card_length)
  finally show ?thesis .
qed

lemma namespaceCount_delete:
  assumes "uniqueIds idx"
  shows "namespaceCount ns idx \<le> namespaceCount ns (deleteByIds ids idx) + length ids"
proof -
  have "length (filter (\<lambda>r. namespace r = ns) idx)
      = length (filter (\<lambda>r. vid r \<notin> set ids) (filter (\<lambda>r. namespace r = ns) idx))
      + length (filter (\<lambda>r. vid r \<in> set ids) (filter (\<lambda>r. namespace r = ns) idx))"
    using sum_length_filter_compl [of "\<lambda>r. vid r \<notin> set ids" "filter (\<lambda>r. namespace r = ns) idx"]
    by simp
  moreover have "length (filter (\<lambda>r. vid r \<in> set ids) (filter (\<lambda>r. namespace r = ns) idx))
      \<le> length (filter (\<lambda>r. vid r \<in> set ids) idx)"
    by (induction idx) auto
  moreover have "filter (\<lambda>r. vid r \<notin> set ids) (filter (\<lambda>r. namespace r = ns) idx)
      = filter (\<lambda>r. namespace r = ns) (filter (\<lambda>r. vid r \<notin> set ids) idx)"
    by (induction idx) auto
  ultimately show ?thesis
    using deleted_bound [OF assms, of ids] by (simp add: namespaceCount_def deleteByIds_def)
qed

lemma clearSessionVectors_requests:
  assumes "answersAtMost e tr (VzQuery (Some (replicate 768 0)) 100 False sid) 100"
  shows "length (deleteRequests (drop (length tr) (clearSessionVectors e sid tr))) \<le> 100"
  using assms
  by (auto simp: clearSessionVectors_def answersAtMost_def perform_def Let_def split: sum.splits)

lemma clearFacts_requests:
  assumes "answersAtMost e tr (VzQuery (Some (replicate 768 0)) 100 False FACTS_NAMESPACE) 100"
  shows "length (deleteRequests (drop (length tr) (clearFacts e tr))) \<le> 100"
  using assms
  by (auto simp: clearFacts_def answersAtMost_def perform_def Let_def split: sum.splits)



lemma insertedRecords_append: "insertedRecords (xs @ ys) = insertedRecords xs @ insertedRecords ys"
  by (induction xs rule: insertedRecords.induct) simp_all

lemma ensureLoaded_loaded: "loaded st \<Longrightarrow> ensureLoaded e sid st tr = (st, tr)"
  by (simp add: ensureLoaded_def)

lemma ensureLoaded_sets_loaded: "loaded (fst (ensureLoaded e sid st tr))"
  by (simp add: ensureLoaded_def perform_def Let_def split: sum.splits option.splits)

lemma ensureLoaded_trace:
  "\<exists>post. snd (ensureLoaded e sid st tr) = tr @ post \<and> insertedRecords post = []"
  by (simp add: ensureLoaded_def perform_def Let_def split: sum.splits option.splits)

lemma embedText_trace: "snd (embedText e t tr) = tr @ [AiEmbed [t]]"
  by (simp add: embedText_def perform_def split: sum.splits)

lemma storeMessage_trace:
  "\<exists>post. snd (storeMessage e d i rn t tr) = tr @ AiEmbed [slice t 0 2000] # post
     \<and> (\<forall>v \<in> set (insertedRecords post).
           vid v = shortId d 48 @ ''::'' @ showNat i \<and> namespace v = d
           \<and> vmetadata v = \<lparr>md_role = rn, md_content = slice t 0 8000\<rparr>)"
  by (simp add: storeMessage_def embedText_def perform_def Let_def split: sum.splits)

lemma queryRelevantMessages_trace:
  "\<exists>post. snd (queryRelevantMessages e d q k tr) = tr @ post \<and> insertedRecords post = []"
  by (simp add: queryRelevantMessages_def embedText_def perform_def split: sum.splits)

lemma queryRelevantFacts_trace:
  "\<exists>post. snd (queryRelevantFacts e q k tr) = tr @ post \<and> insertedRecords post = []"
  by (simp add: queryRelevantFacts_def embedText_def perform_def split: sum.splits)

lemma recall_trace:
  "\<exists>post. snd (recall e d q tr) = tr @ post \<and> insertedRecords post = []"
  using queryRelevantMessages_trace [of e d q RAG_TOP_K tr]
  by (auto simp: recall_def split: prod.splits sum.splits)

lemma recallFacts_trace:
  "\<exists>post. snd (recallFacts e q tr) = tr @ post \<and> insertedRecords post = []"
  using queryRelevantFacts_trace [of e q FACTS_TOP_K tr]
  by (auto simp: recallFacts_def split: prod.splits sum.splits)

lemma gatherContext_session:
  assumes "gatherContext e doId sid msg st tr = (st1, sys, rc, fc, tr4)"
  shows "st1 = (fst (ensureLoaded e sid st tr))
           \<lparr>messages := messages (fst (ensureLoaded e sid st tr)) @ [\<lparr>role = User, content = msg\<rparr>]\<rparr>"
  using assms by (auto simp: gatherContext_def Let_def split: prod.splits)

lemma gatherContext_trace:
  assumes "gatherContext e doId sid msg st tr = (st1, sys, rc, fc, tr4)"
  shows "\<exists>post. tr4 = snd (ensureLoaded e sid st tr)
                   @ [DbInsertMessage sid ''user'' msg, AiEmbed [slice msg 0 2000]] @ post
           \<and> (\<forall>v \<in> set (insertedRecords post).
                 recordOf doId (length (messages (fst (ensureLoaded e sid st tr))))
                   \<lparr>role = User, content = msg\<rparr> v)"
proof -
  obtain st0 tr0 where l: "ensureLoaded e sid st tr = (st0, tr0)" by (cases "ensureLoaded e sid st tr")
  define tr1 where "tr1 = tr0 @ [DbInsertMessage sid ''user'' msg]"
  define tr2 where "tr2 = snd (storeMessage e doId (length (messages st0)) ''user'' msg tr1)"
  define tr3 where "tr3 = snd (recall e doId msg tr2)"
  have tr4: "tr4 = snd (recallFacts e msg tr3)"
    using assms l unfolding tr3_def tr2_def tr1_def
    by (auto simp: gatherContext_def Let_def perform_def split: prod.splits)
  obtain p2 where p2: "tr2 = tr1 @ AiEmbed [slice msg 0 2000] # p2"
    and r2: "\<forall>v \<in> set (insertedRecords p2).
           vid v = shortId doId 48 @ ''::'' @ showNat (length (messages st0)) \<and> namespace v = doId
           \<and> vmetadata v = \<lparr>md_role = ''user'', md_content = slice msg 0 8000\<rparr>"
    unfolding tr2_def using storeMessage_trace [of e doId "length (messages st0)" "''user''" msg tr1] by blast
  obtain p3 where p3: "tr3 = tr2 @ p3" and r3: "insertedRecords p3 = []"
    unfolding tr3_def using recall_trace [of e doId msg tr2] by blast
  obtain p4 where p4: "tr4 = tr3 @ p4" and r4: "insertedRecords p4 = []"
    unfolding tr4 using recallFacts_trace [of e msg tr3] by blast
  have "tr4 = tr0 @ [DbInsertMessage sid ''user'' msg, AiEmbed [slice msg 0 2000]] @ (p2 @ p3 @ p4)"
    by (simp add: p4 p3 p2 tr1_def)
  moreover have "\<forall>v \<in> set (insertedRecords (p2 @ p3 @ p4)).
      recordOf doId (length (messages st0)) \<lparr>role = User, content = msg\<rparr> v"
    using r2 by (simp add: insertedRecords_append r3 r4 recordOf_def roleName_def)
  ultimately show ?thesis using l by auto
qed

lemma gatherContext_prompt:
  assumes "gatherContext e doId sid msg st tr = (st1, sys, rc, fc, tr4)"
  shows "sys = \<lparr>role = System,
                 content = systemContentOf (clock e (snd (ensureLoaded e sid st tr)))
                             (fst (ensureLoaded e sid st tr))\<rparr>"
  using assms by (auto simp: gatherContext_def Let_def split: prod.splits)


lemma handleTurn_throws:
  assumes "gatherContext e doId sid msg st tr = (st1, sys, rc, fc, tr4)"
    and "ai_chat e (tr4 @ [AiChat (finalMessagesOf enc sys rc fc (messages st1)) MAX_RESPONSE_TOKENS]) = Inl (Thrown d)"
  shows "handleTurn e enc doId sid msg st tr =
           (ChatError 500 ''AI inference failed'' d, st1,
            tr4 @ [AiChat (finalMessagesOf enc sys rc fc (messages st1)) MAX_RESPONSE_TOKENS])"
  using assms by (simp add: handleTurn_def perform_def Let_def)

lemma handleTurn_returns:
  assumes "gatherContext e doId sid msg st tr = (st1, sys, rc, fc, tr4)"
    and "ai_chat e (tr4 @ [AiChat (finalMessagesOf enc sys rc fc (messages st1)) MAX_RESPONSE_TOKENS]) = Inr a"
  shows "\<exists>post. handleTurn e enc doId sid msg st tr =
           (ChatReply (assistantMessageOf a) (Suc (length (messages st1))),
            st1\<lparr>messages := messages st1 @ [\<lparr>role = Assistant, content = assistantMessageOf a\<rparr>]\<rparr>,
            tr4 @ [AiChat (finalMessagesOf enc sys rc fc (messages st1)) MAX_RESPONSE_TOKENS,
                   DbInsertMessage sid ''assistant'' (assistantMessageOf a),
                   AiEmbed [slice (assistantMessageOf a) 0 2000]] @ post)
         \<and> (\<forall>v \<in> set (insertedRecords post).
               recordOf doId (length (messages st1)) \<lparr>role = Assistant, content = assistantMessageOf a\<rparr> v)"
proof -
  define fm where "fm = finalMessagesOf enc sys rc fc (messages st1)"
  define am where "am = assistantMessageOf a"
  define tr6 where "tr6 = tr4 @ [AiChat fm MAX_RESPONSE_TOKENS, DbInsertMessage sid ''assistant'' am]"
  obtain p where p: "snd (storeMessage e doId (length (messages st1)) ''assistant'' am tr6)
      = tr6 @ AiEmbed [slice am 0 2000] # p"
    and r: "\<forall>v \<in> set (insertedRecords p).
           vid v = shortId doId 48 @ ''::'' @ showNat (length (messages st1)) \<and> namespace v = doId
           \<and> vmetadata v = \<lparr>md_role = ''assistant'', md_content = slice am 0 8000\<rparr>"
    using storeMessage_trace [of e doId "length (messages st1)" "''assistant''" am tr6] by blast
  have "handleTurn e enc doId sid msg st tr =
           (ChatReply am (Suc (length (messages st1))),
            st1\<lparr>messages := messages st1 @ [\<lparr>role = Assistant, content = am\<rparr>]\<rparr>,
            tr4 @ [AiChat fm MAX_RESPONSE_TOKENS, DbInsertMessage sid ''assistant'' am,
                   AiEmbed [slice am 0 2000]] @ p)"
    using assms p unfolding fm_def am_def tr6_def
    by (simp add: handleTurn_def perform_def Let_def)
  moreover have "\<forall>v \<in> set (insertedRecords p).
               recordOf doId (length (messages st1)) \<lparr>role = Assistant, content = am\<rparr> v"
    using r by (simp add: recordOf_def roleName_def)
  ultimately show ?thesis unfolding fm_def am_def by blast
qed

lemma handleTurn_reply_shape:
  assumes run: "handleTurn e enc doId sid m st tr = (r, st', tr')" and ok: "isReply r"
  shows "\<exists>post. tr' = tr @ post \<and> loaded st'
           \<and> messages st' = messages (fst (ensureLoaded e sid st tr))
                @ [\<lparr>role = User, content = m\<rparr>, \<lparr>role = Assistant, content = replyText r\<rparr>]
           \<and> (\<forall>v \<in> set (insertedRecords post).
                 recordOf doId (length (messages (fst (ensureLoaded e sid st tr))))
                   \<lparr>role = User, content = m\<rparr> v
               \<or> recordOf doId (Suc (length (messages (fst (ensureLoaded e sid st tr)))))
                   \<lparr>role = Assistant, content = replyText r\<rparr> v)"
proof -
  define st0 where "st0 = fst (ensureLoaded e sid st tr)"
  define tr0 where "tr0 = snd (ensureLoaded e sid st tr)"
  obtain st1 sys rc fc tr4 where g: "gatherContext e doId sid m st tr = (st1, sys, rc, fc, tr4)"
    by (metis prod_cases5)
  have st1: "st1 = st0\<lparr>messages := messages st0 @ [\<lparr>role = User, content = m\<rparr>]\<rparr>"
    unfolding st0_def by (rule gatherContext_session [OF g])
  obtain p0 where p0: "tr0 = tr @ p0" and r0: "insertedRecords p0 = []"
    unfolding tr0_def using ensureLoaded_trace [of e sid st tr] by blast
  obtain p1 where p1: "tr4 = tr0 @ [DbInsertMessage sid ''user'' m, AiEmbed [slice m 0 2000]] @ p1"
    and r1: "\<forall>v \<in> set (insertedRecords p1). recordOf doId (length (messages st0)) \<lparr>role = User, content = m\<rparr> v"
    unfolding tr0_def st0_def using gatherContext_trace [OF g] by blast
  define call where "call = AiChat (finalMessagesOf enc sys rc fc (messages st1)) MAX_RESPONSE_TOKENS"
  show ?thesis
  proof (cases "ai_chat e (tr4 @ [call])")
    case (Inl err)
    obtain d where "err = Thrown d" by (cases err)
    then have "handleTurn e enc doId sid m st tr = (ChatError 500 ''AI inference failed'' d, st1, tr4 @ [call])"
      using handleTurn_throws [OF g, of enc d] Inl unfolding call_def by simp
    then show ?thesis using run ok by (simp add: isReply_def)
  next
    case (Inr a)
    obtain p2 where h: "handleTurn e enc doId sid m st tr =
           (ChatReply (assistantMessageOf a) (Suc (length (messages st1))),
            st1\<lparr>messages := messages st1 @ [\<lparr>role = Assistant, content = assistantMessageOf a\<rparr>]\<rparr>,
            tr4 @ [call, DbInsertMessage sid ''assistant'' (assistantMessageOf a),
                   AiEmbed [slice (assistantMessageOf a) 0 2000]] @ p2)"
      and r2: "\<forall>v \<in> set (insertedRecords p2).
               recordOf doId (length (messages st1)) \<lparr>role = Assistant, content = assistantMessageOf a\<rparr> v"
      using handleTurn_returns [OF g, of enc a] Inr unfolding call_def by blast
    have r: "r = ChatReply (assistantMessageOf a) (Suc (length (messages st1)))"
      and st': "st' = st1\<lparr>messages := messages st1 @ [\<lparr>role = Assistant, content = assistantMessageOf a\<rparr>]\<rparr>"
      and tr': "tr' = tr4 @ [call, DbInsertMessage sid ''assistant'' (assistantMessageOf a),
                   AiEmbed [slice (assistantMessageOf a) 0 2000]] @ p2"
      using run h by simp_all
    have rt: "replyText r = assistantMessageOf a" by (simp add: r replyText_def)
    have len: "length (messages st1) = Suc (length (messages st0))" by (simp add: st1)
    define post where "post = p0 @ [DbInsertMessage sid ''user'' m, AiEmbed [slice m 0 2000]] @ p1
        @ [call, DbInsertMessage sid ''assistant'' (assistantMessageOf a),
           AiEmbed [slice (assistantMessageOf a) 0 2000]] @ p2"
    have "tr' = tr @ post" by (simp add: tr' p1 p0 post_def)
    moreover have "loaded st'"
      using ensureLoaded_sets_loaded [of e sid st tr] by (simp add: st' st1 st0_def)
    moreover have "messages st' = messages st0
                @ [\<lparr>role = User, content = m\<rparr>, \<lparr>role = Assistant, content = replyText r\<rparr>]"
      by (simp add: st' st1 rt)
    moreover have "insertedRecords post = insertedRecords p1 @ insertedRecords p2"
      by (simp add: post_def insertedRecords_append r0 call_def)
    then have "\<forall>v \<in> set (insertedRecords post).
                 recordOf doId (length (messages st0)) \<lparr>role = User, content = m\<rparr> v
               \<or> recordOf doId (Suc (length (messages st0))) \<lparr>role = Assistant, content = replyText r\<rparr> v"
      using r1 r2 by (auto simp: rt len)
    ultimately show ?thesis unfolding st0_def by blast
  qed
qed


lemma handleTurns_length:
  "handleTurns e enc doId sid ms st tr = (rs, st', tr') \<Longrightarrow> length rs = length ms"
  by (induction ms arbitrary: st tr rs) (auto split: prod.splits)

lemma handleTurns_shape:
  assumes "loaded st" and "handleTurns e enc doId sid ms st tr = (rs, st', tr')"
    and "\<forall>r \<in> set rs. isReply r"
  shows "\<exists>post. tr' = tr @ post \<and> loaded st'
           \<and> messages st' = messages st
                @ concat (map (\<lambda>(m, r). [\<lparr>role = User, content = m\<rparr>, \<lparr>role = Assistant, content = replyText r\<rparr>])
                              (zip ms rs))
           \<and> (\<forall>v \<in> set (insertedRecords post).
                 \<exists>i. length (messages st) \<le> i \<and> i < length (messages st')
                     \<and> recordOf doId i (messages st' ! i) v)"
  using assms
proof (induction ms arbitrary: st tr rs)
  case Nil
  then show ?case by simp
next
  case (Cons m ms)
  obtain r st1 tr1 where h: "handleTurn e enc doId sid m st tr = (r, st1, tr1)"
    by (metis prod_cases3)
  obtain rs1 where rest: "handleTurns e enc doId sid ms st1 tr1 = (rs1, st', tr')" and rs: "rs = r # rs1"
    using Cons.prems(2) h by (auto split: prod.splits)
  have okr: "isReply r" and okrs: "\<forall>r \<in> set rs1. isReply r" using Cons.prems(3) rs by simp_all
  have l0: "ensureLoaded e sid st tr = (st, tr)" using Cons.prems(1) by (rule ensureLoaded_loaded)
  obtain p1 where t1: "tr1 = tr @ p1" and ld1: "loaded st1"
    and m1: "messages st1 = messages st @ [\<lparr>role = User, content = m\<rparr>, \<lparr>role = Assistant, content = replyText r\<rparr>]"
    and r1: "\<forall>v \<in> set (insertedRecords p1).
                 recordOf doId (length (messages st)) \<lparr>role = User, content = m\<rparr> v
               \<or> recordOf doId (Suc (length (messages st))) \<lparr>role = Assistant, content = replyText r\<rparr> v"
    using handleTurn_reply_shape [OF h okr] by (auto simp: l0)
  obtain p2 where t2: "tr' = tr1 @ p2" and ld2: "loaded st'"
    and m2: "messages st' = messages st1
                @ concat (map (\<lambda>(m, r). [\<lparr>role = User, content = m\<rparr>, \<lparr>role = Assistant, content = replyText r\<rparr>])
                              (zip ms rs1))"
    and r2: "\<forall>v \<in> set (insertedRecords p2).
                 \<exists>i. length (messages st1) \<le> i \<and> i < length (messages st')
                     \<and> recordOf doId i (messages st' ! i) v"
    using Cons.IH [OF ld1 rest okrs] by blast
  have n0: "messages st' ! length (messages st) = \<lparr>role = User, content = m\<rparr>"
    and n1: "messages st' ! Suc (length (messages st)) = \<lparr>role = Assistant, content = replyText r\<rparr>"
    by (simp_all add: m2 m1 nth_append)
  have len: "Suc (length (messages st)) < length (messages st')" by (simp add: m2 m1)
  have "\<forall>v \<in> set (insertedRecords (p1 @ p2)).
                 \<exists>i. length (messages st) \<le> i \<and> i < length (messages st')
                     \<and> recordOf doId i (messages st' ! i) v"
  proof
    fix v assume "v \<in> set (insertedRecords (p1 @ p2))"
    then consider "v \<in> set (insertedRecords p1)" | "v \<in> set (insertedRecords p2)"
      by (auto simp: insertedRecords_append)
    then show "\<exists>i. length (messages st) \<le> i \<and> i < length (messages st')
                     \<and> recordOf doId i (messages st' ! i) v"
    proof cases
      case 1
      then have "recordOf doId (length (messages st)) (messages st' ! length (messages st)) v
         \<or> recordOf doId (Suc (length (messages st))) (messages st' ! Suc (length (messages st))) v"
        using r1 by (simp add: n0 n1)
      then show ?thesis using len by (metis Suc_lessD le_refl le_SucI)
    next
      case 2
      then obtain i where "length (messages st1) \<le> i" "i < length (messages st')"
          "recordOf doId i (messages st' ! i) v" using r2 by blast
      moreover have "length (messages st) \<le> length (messages st1)" by (simp add: m1)
      ultimately show ?thesis by (metis le_trans)
    qed
  qed
  moreover have "tr' = tr @ (p1 @ p2)" by (simp add: t2 t1)
  moreover have "messages st' = messages st
                @ concat (map (\<lambda>(m, r). [\<lparr>role = User, content = m\<rparr>, \<lparr>role = Assistant, content = replyText r\<rparr>])
                              (zip (m # ms) rs))"
    by (simp add: m2 m1 rs)
  ultimately show ?case using ld2 by blast
qed

lemma pairs_length:
  "length ms = length rs \<Longrightarrow>
   length (concat (map (\<lambda>(m, r). [\<lparr>role = User, content = m\<rparr>, \<lparr>role = Assistant, content = replyText r\<rparr>])
                              (zip ms rs))) = 2 * length ms"
  by (induction ms rs rule: list_induct2) simp_all

lemma pairs_nth:
  "length ms = length rs \<Longrightarrow> k < length ms \<Longrightarrow>
   concat (map (\<lambda>(m, r). [\<lparr>role = User, content = m\<rparr>, \<lparr>role = Assistant, content = replyText r\<rparr>])
                              (zip ms rs)) ! (2 * k) = \<lparr>role = User, content = ms ! k\<rparr>
   \<and> concat (map (\<lambda>(m, r). [\<lparr>role = User, content = m\<rparr>, \<lparr>role = Assistant, content = replyText r\<rparr>])
                              (zip ms rs)) ! (2 * k + 1) = \<lparr>role = Assistant, content = replyText (rs ! k)\<rparr>"
proof (induction ms rs arbitrary: k rule: list_induct2)
  case Nil
  then show ?case by simp
next
  case (Cons m ms r rs)
  show ?case
  proof (cases k)
    case 0
    then show ?thesis by simp
  next
    case (Suc j)
    then have "j < length ms" using Cons.prems by simp
    then show ?thesis using Cons.IH [of j] Suc by simp
  qed
qed



lemma handleTurn_calls_model:
  assumes "gatherContext e doId sid msg st tr = (st1, sys, rc, fc, tr4)"
  shows "prefix (tr4 @ [AiChat (finalMessagesOf enc sys rc fc (messages st1)) MAX_RESPONSE_TOKENS])
           (snd (snd (handleTurn e enc doId sid msg st tr)))"
proof (cases "ai_chat e (tr4 @ [AiChat (finalMessagesOf enc sys rc fc (messages st1)) MAX_RESPONSE_TOKENS])")
  case (Inl err)
  obtain d where "err = Thrown d" by (cases err)
  then show ?thesis using handleTurn_throws [OF assms, of enc d] Inl by simp
next
  case (Inr a)
  then obtain post where "handleTurn e enc doId sid msg st tr =
           (ChatReply (assistantMessageOf a) (Suc (length (messages st1))),
            st1\<lparr>messages := messages st1 @ [\<lparr>role = Assistant, content = assistantMessageOf a\<rparr>]\<rparr>,
            tr4 @ [AiChat (finalMessagesOf enc sys rc fc (messages st1)) MAX_RESPONSE_TOKENS,
                   DbInsertMessage sid ''assistant'' (assistantMessageOf a),
                   AiEmbed [slice (assistantMessageOf a) 0 2000]] @ post)"
    using handleTurn_returns [OF assms, of enc a] by blast
  then show ?thesis by (simp add: prefix_def)
qed

lemma availableForHistory_eq:
  "availableForHistory enc sys rc fc =
     24000 - 1024 - countMessageTokens enc sys
     - (if rc = [] then 0
        else min (countMessageTokens enc
                    \<lparr>role = System, content = ''Recalled memory from earlier in this conversation:'' @ NL @ rc\<rparr>)
                 2000)
     - (if fc = [] then 0
        else min (countMessageTokens enc
                    \<lparr>role = System, content = ''Known facts stored by the user:'' @ NL @ fc\<rparr>)
                 1000)"
  by (simp add: availableForHistory_def recalledTokensOf_def factsTokensOf_def recalledMessageOf_def
      factsMessageOf_def MAX_CONTEXT_TOKENS_def MAX_RESPONSE_TOKENS_def MAX_RECALLED_TOKENS_def
      MAX_FACTS_TOKENS_def Let_def)

lemma finalMessagesOf_eq:
  "finalMessagesOf enc sys rc fc ms =
     [sys]
     @ (if fc = [] then []
        else [\<lparr>role = System, content = ''Known facts stored by the user:'' @ NL @ fc\<rparr>])
     @ (if rc = [] then []
        else [\<lparr>role = System, content = ''Recalled memory from earlier in this conversation:'' @ NL @ rc\<rparr>])
     @ trimMessagesToFitContext enc ms (availableForHistory enc sys rc fc)"
  by (simp add: finalMessagesOf_def recalledMessageOf_def factsMessageOf_def Let_def)

lemma storeMessage_exact:
  "snd (storeMessage e d i rn t tr) =
     tr @ [AiEmbed [slice t 0 2000]]
     @ (case ai_embed e (tr @ [AiEmbed [slice t 0 2000]]) of
          Inl err \<Rightarrow> []
        | Inr data \<Rightarrow>
            [VzInsert [\<lparr>vid = shortId d 48 @ ''::'' @ showNat i,
                        vvalues = (case data of [] \<Rightarrow> None | v # vs \<Rightarrow> Some v),
                        namespace = d,
                        vmetadata = \<lparr>md_role = rn, md_content = slice t 0 8000\<rparr>\<rparr>]])"
  by (simp add: storeMessage_def embedText_def perform_def Let_def split: sum.splits)

lemma fallback_slices:
  "slice ''Sorry, I could not generate a response.'' 0 2000 = ''Sorry, I could not generate a response.''"
  "slice ''Sorry, I could not generate a response.'' 0 8000 = ''Sorry, I could not generate a response.''"
  by (simp_all add: slice_def)

section \<open>The claims\<close>

subsection \<open>C1: the context trimmer\<close>

text \<open>
  C1, as amended. For every message list and every budget,
  \<open>trimMessagesToFitContext\<close> returns a suffix of the input, in the input's order; every
  suffix of the input whose cumulative framed token count is within the budget is at most
  as long as the result; the result is empty when the newest message alone is above the
  budget. When the budget is not negative the cumulative count of the result is within
  the budget, so the result is the longest suffix that fits. When the budget is negative
  no suffix fits, not even the empty one, and the result is empty.
\<close>

theorem trim_is_longest_fitting_suffix:
  "suffix (trimMessagesToFitContext enc ms b) ms
   \<and> (if 0 \<le> b then tokensOf enc (trimMessagesToFitContext enc ms b) \<le> b
       else trimMessagesToFitContext enc ms b = [])
   \<and> (\<forall>s. suffix s ms \<and> tokensOf enc s \<le> b
          \<longrightarrow> length s \<le> length (trimMessagesToFitContext enc ms b))
   \<and> (ms \<noteq> [] \<and> b < countMessageTokens enc (last ms)
          \<longrightarrow> trimMessagesToFitContext enc ms b = [])"
  using trim_suffix [of enc ms b] trim_fits [of b enc ms] trim_negative [of b enc ms]
    trim_longest [of _ ms enc b] trim_newest_too_big [of ms b enc]
  by auto

text \<open>
  The theorem at the messages \<open>hello\<close>, \<open>hi\<close>, \<open>bye\<close> (9, 6 and 7 framed tokens with one
  token per character): with the budget 13 the suffix \<open>hi\<close>, \<open>bye\<close> fits and the result is
  at least as long; with the budget 6 the newest message is too big and the result is
  empty.
\<close>

theorem trim_is_longest_fitting_suffix_witness:
  "suffix [\<lparr>role = Assistant, content = ''hi''\<rparr>, \<lparr>role = User, content = ''bye''\<rparr>]
          [\<lparr>role = User, content = ''hello''\<rparr>, \<lparr>role = Assistant, content = ''hi''\<rparr>,
           \<lparr>role = User, content = ''bye''\<rparr>]
   \<and> tokensOf charTokenizer [\<lparr>role = Assistant, content = ''hi''\<rparr>, \<lparr>role = User, content = ''bye''\<rparr>] \<le> 13
   \<and> length [\<lparr>role = Assistant, content = ''hi''\<rparr>, \<lparr>role = User, content = ''bye''\<rparr>]
       \<le> length (trimMessagesToFitContext charTokenizer
                    [\<lparr>role = User, content = ''hello''\<rparr>, \<lparr>role = Assistant, content = ''hi''\<rparr>,
                     \<lparr>role = User, content = ''bye''\<rparr>] 13)
   \<and> 6 < countMessageTokens charTokenizer
            (last [\<lparr>role = User, content = ''hello''\<rparr>, \<lparr>role = Assistant, content = ''hi''\<rparr>,
                   \<lparr>role = User, content = ''bye''\<rparr>])
   \<and> trimMessagesToFitContext charTokenizer
         [\<lparr>role = User, content = ''hello''\<rparr>, \<lparr>role = Assistant, content = ''hi''\<rparr>,
          \<lparr>role = User, content = ''bye''\<rparr>] 6 = []"
proof -
  define ms where "ms = [\<lparr>role = User, content = ''hello''\<rparr>, \<lparr>role = Assistant, content = ''hi''\<rparr>,
                          \<lparr>role = User, content = ''bye''\<rparr>]"
  define s where "s = [\<lparr>role = Assistant, content = ''hi''\<rparr>, \<lparr>role = User, content = ''bye''\<rparr>]"
  have suf: "suffix s ms"
    by (simp add: s_def ms_def suffix_def)
  have fit: "tokensOf charTokenizer s \<le> 13"
    by (simp add: s_def tokensOf_def countMessageTokens_def countTokens_def charTokenizer_def
        PER_MESSAGE_OVERHEAD_def)
  have big: "ms \<noteq> [] \<and> 6 < countMessageTokens charTokenizer (last ms)"
    by (simp add: ms_def countMessageTokens_def countTokens_def charTokenizer_def
        PER_MESSAGE_OVERHEAD_def)
  have "length s \<le> length (trimMessagesToFitContext charTokenizer ms 13)"
    using trim_is_longest_fitting_suffix [of charTokenizer ms 13] suf fit by blast
  moreover have "trimMessagesToFitContext charTokenizer ms 6 = []"
    using trim_is_longest_fitting_suffix [of charTokenizer ms 6] big by blast
  ultimately show ?thesis using suf fit big unfolding s_def ms_def by blast
qed

text \<open>
  C1 as stated fails for a negative budget: with the budget \<open>-1\<close> the result is the empty
  suffix, whose cumulative count \<open>0\<close> is above the budget.
\<close>

theorem trim_negative_budget_counterexample:
  "trimMessagesToFitContext charTokenizer [\<lparr>role = User, content = ''hi''\<rparr>] (- 1) = []
   \<and> \<not> tokensOf charTokenizer
          (trimMessagesToFitContext charTokenizer [\<lparr>role = User, content = ''hi''\<rparr>] (- 1)) \<le> - 1"
  by (simp add: trimMessagesToFitContext_def tokensOf_def countMessageTokens_def countTokens_def
      charTokenizer_def PER_MESSAGE_OVERHEAD_def)

subsection \<open>C2: the history budget\<close>

text \<open>
  C2. In \<open>handleTurn\<close>, with the system prompt, the recalled-memory block and the facts
  block that the first part of the turn produced, the budget of the trimmer is 24000 minus
  1024 minus the framed token count of the system prompt, minus the smaller of 2000 and
  the framed token count of the recalled-memory message (nothing when there is no such
  message), minus the smaller of 1000 and the framed token count of the facts message
  (nothing when there is none). The chat model is called with the system prompt, the facts
  message and the recalled-memory message, each carrying its block in full, followed by
  the in-memory messages trimmed to that budget.
\<close>

theorem history_budget:
  "case gatherContext e doId sid msg st tr of
     (st1, sys, rc, fc, tr4) \<Rightarrow>
       availableForHistory enc sys rc fc =
         24000 - 1024 - countMessageTokens enc sys
         - (if rc = [] then 0
            else min (countMessageTokens enc
                        \<lparr>role = System, content = ''Recalled memory from earlier in this conversation:'' @ NL @ rc\<rparr>)
                     2000)
         - (if fc = [] then 0
            else min (countMessageTokens enc
                        \<lparr>role = System, content = ''Known facts stored by the user:'' @ NL @ fc\<rparr>)
                     1000)
       \<and> prefix (tr4 @ [AiChat
                   ([sys]
                    @ (if fc = [] then []
                       else [\<lparr>role = System, content = ''Known facts stored by the user:'' @ NL @ fc\<rparr>])
                    @ (if rc = [] then []
                       else [\<lparr>role = System, content = ''Recalled memory from earlier in this conversation:'' @ NL @ rc\<rparr>])
                    @ trimMessagesToFitContext enc (messages st1) (availableForHistory enc sys rc fc))
                   1024])
            (snd (snd (handleTurn e enc doId sid msg st tr)))"
proof -
  obtain st1 sys rc fc tr4 where g: "gatherContext e doId sid msg st tr = (st1, sys, rc, fc, tr4)"
    by (metis prod_cases5)
  show ?thesis
    using handleTurn_calls_model [OF g, of enc] availableForHistory_eq [of enc sys rc fc]
    by (simp add: g finalMessagesOf_eq MAX_RESPONSE_TOKENS_def)
qed

subsection \<open>C3: sequence integrity\<close>

text \<open>
  C3. Take a conversation whose message list is empty once the session is loaded, and a
  non-empty sequence of turns that all return a reply, whatever the database and the vector
  index answer or fail to answer. Afterwards the in-memory list has twice as many entries
  as there were turns; entry \<open>2k\<close> is the user message of turn \<open>k\<close> and entry \<open>2k + 1\<close>
  is the assistant reply of turn \<open>k\<close>; and every record handed to the vector index during
  these turns is the record of the message at some position \<open>i\<close> of the list, stored under
  the sequence index \<open>i\<close>.
\<close>

theorem turns_alternate:
  assumes fresh: "messages (fst (ensureLoaded e sid st tr)) = []"
    and run: "handleTurns e enc doId sid msgs st tr = (rs, st', tr')"
    and ok: "\<forall>r \<in> set rs. isReply r"
    and n: "1 \<le> length msgs"
  shows "length (messages st') = 2 * length msgs
       \<and> (\<forall>k < length msgs. messages st' ! (2 * k) = \<lparr>role = User, content = msgs ! k\<rparr>
                            \<and> messages st' ! (2 * k + 1) = \<lparr>role = Assistant, content = replyText (rs ! k)\<rparr>)
       \<and> (\<forall>v \<in> set (insertedRecords (drop (length tr) tr')).
             \<exists>i < 2 * length msgs. recordOf doId i (messages st' ! i) v)"
proof -
  obtain m ms where msgs: "msgs = m # ms" using n by (cases msgs) simp_all
  have lrs: "length rs = length msgs" using run by (rule handleTurns_length)
  obtain r st1 tr1 where h: "handleTurn e enc doId sid m st tr = (r, st1, tr1)"
    by (metis prod_cases3)
  obtain rs1 where rest: "handleTurns e enc doId sid ms st1 tr1 = (rs1, st', tr')" and rs: "rs = r # rs1"
    using run h msgs by (auto split: prod.splits)
  have okr: "isReply r" and okrs: "\<forall>r \<in> set rs1. isReply r" using ok rs by simp_all
  obtain p1 where t1: "tr1 = tr @ p1" and ld1: "loaded st1"
    and m1: "messages st1 = [\<lparr>role = User, content = m\<rparr>, \<lparr>role = Assistant, content = replyText r\<rparr>]"
    and r1: "\<forall>v \<in> set (insertedRecords p1).
                 recordOf doId 0 \<lparr>role = User, content = m\<rparr> v
               \<or> recordOf doId (Suc 0) \<lparr>role = Assistant, content = replyText r\<rparr> v"
    using handleTurn_reply_shape [OF h okr] by (auto simp: fresh)
  obtain p2 where t2: "tr' = tr1 @ p2"
    and m2: "messages st' = messages st1
                @ concat (map (\<lambda>(m, r). [\<lparr>role = User, content = m\<rparr>, \<lparr>role = Assistant, content = replyText r\<rparr>])
                              (zip ms rs1))"
    and r2: "\<forall>v \<in> set (insertedRecords p2).
                 \<exists>i. length (messages st1) \<le> i \<and> i < length (messages st')
                     \<and> recordOf doId i (messages st' ! i) v"
    using handleTurns_shape [OF ld1 rest okrs] by blast
  have all: "messages st' = concat (map (\<lambda>(m, r). [\<lparr>role = User, content = m\<rparr>, \<lparr>role = Assistant, content = replyText r\<rparr>])
                              (zip msgs rs))"
    by (simp add: m2 m1 msgs rs)
  have len: "length (messages st') = 2 * length msgs"
    unfolding all using lrs by (simp add: pairs_length)
  have nth: "\<forall>k < length msgs. messages st' ! (2 * k) = \<lparr>role = User, content = msgs ! k\<rparr>
                            \<and> messages st' ! (2 * k + 1) = \<lparr>role = Assistant, content = replyText (rs ! k)\<rparr>"
    unfolding all using lrs pairs_nth [of msgs rs] by simp
  have dr: "drop (length tr) tr' = p1 @ p2" by (simp add: t2 t1)
  have n0: "messages st' ! 0 = \<lparr>role = User, content = m\<rparr>"
    and n1: "messages st' ! Suc 0 = \<lparr>role = Assistant, content = replyText r\<rparr>"
    by (simp_all add: m2 m1)
  have two: "Suc 0 < 2 * length msgs" using n by simp
  have recs: "\<forall>v \<in> set (insertedRecords (drop (length tr) tr')).
             \<exists>i < 2 * length msgs. recordOf doId i (messages st' ! i) v"
  proof
    fix v assume "v \<in> set (insertedRecords (drop (length tr) tr'))"
    then consider "v \<in> set (insertedRecords p1)" | "v \<in> set (insertedRecords p2)"
      by (auto simp: dr insertedRecords_append)
    then show "\<exists>i < 2 * length msgs. recordOf doId i (messages st' ! i) v"
    proof cases
      case 1
      then have "recordOf doId 0 (messages st' ! 0) v \<or> recordOf doId (Suc 0) (messages st' ! Suc 0) v"
        using r1 by (simp add: n0 n1)
      then show ?thesis using two by (metis Suc_lessD)
    next
      case 2
      then show ?thesis using r2 len by auto
    qed
  qed
  show ?thesis using len nth recs by blast
qed

text \<open>
  The theorem at two turns of a new session, in the environment where every database
  write and every vector insertion fails.
\<close>

theorem turns_alternate_witness:
  "length (messages (fst (snd (handleTurns lossyEnv charTokenizer ''do-1'' ''s-1'' [''Hi'', ''Again''] newSession [])))) = 4
   \<and> messages (fst (snd (handleTurns lossyEnv charTokenizer ''do-1'' ''s-1'' [''Hi'', ''Again''] newSession []))) ! 2
       = \<lparr>role = User, content = ''Again''\<rparr>
   \<and> messages (fst (snd (handleTurns lossyEnv charTokenizer ''do-1'' ''s-1'' [''Hi'', ''Again''] newSession []))) ! 3
       = \<lparr>role = Assistant, content = ''Hello''\<rparr>"
proof -
  obtain rs st' tr' where run:
    "handleTurns lossyEnv charTokenizer ''do-1'' ''s-1'' [''Hi'', ''Again''] newSession [] = (rs, st', tr')"
    by (metis prod_cases3)
  have "fst (handleTurns lossyEnv charTokenizer ''do-1'' ''s-1'' [''Hi'', ''Again''] newSession [])
          = [ChatReply ''Hello'' 2, ChatReply ''Hello'' 4]"
    by code_simp
  then have rs: "rs = [ChatReply ''Hello'' 2, ChatReply ''Hello'' 4]"
    using run by simp
  have ok: "\<forall>r \<in> set rs. isReply r"
    by (simp add: rs isReply_def)
  have fresh: "messages (fst (ensureLoaded lossyEnv ''s-1'' newSession [])) = []"
    by code_simp
  have n: "1 \<le> length [''Hi'', ''Again'']"
    by simp
  note t = turns_alternate [OF fresh run ok n]
  have len: "length (messages st') = 2 * length [''Hi'', ''Again'']"
    by (rule t [THEN conjunct1])
  have "messages st' ! (2 * 1) = \<lparr>role = User, content = [''Hi'', ''Again''] ! 1\<rparr>
      \<and> messages st' ! (2 * 1 + 1) = \<lparr>role = Assistant, content = replyText (rs ! 1)\<rparr>"
    by (rule t [THEN conjunct2, THEN conjunct1, rule_format, of 1]) simp
  then have "messages st' ! 2 = \<lparr>role = User, content = ''Again''\<rparr>
      \<and> messages st' ! 3 = \<lparr>role = Assistant, content = ''Hello''\<rparr>"
    by (simp add: rs replyText_def)
  then show ?thesis using len unfolding run by simp
qed

subsection \<open>C4: failure of the chat model\<close>



subsection \<open>C5: the windows of a document of 4000 characters\<close>

text \<open>
  C5, as amended. For a content of 4000 characters \<open>storeDocument\<close> produces exactly four
  windows, which start at the offsets 0, 1300, 2600 and 3900 and are at most 1500
  characters long. They are sent to the embedding model in one call, and when it returns
  four embeddings, one record per window is handed to the vector index in one insertion,
  with the four different ids that end in the window indices 0, 1, 2 and 3, each record
  carrying its embedding and the namespace of the session.
\<close>

theorem storeDocument_4000_chars:
  assumes "length c = 4000"
  shows "chunkLoop c 0 [] = Some [slice c 0 1500, slice c 1300 2800, slice c 2600 4100, slice c 3900 5400]
   \<and> (\<forall>es. ai_embed e (tr @ [AiEmbed [slice c 0 1500, slice c 1300 2800, slice c 2600 4100, slice c 3900 5400]]) = Inr es
             \<and> length es = 4
        \<longrightarrow> (\<exists>res vs. storeDocument e sid fn c tr =
                Some (res, tr @ [AiEmbed [slice c 0 1500, slice c 1300 2800, slice c 2600 4100, slice c 3900 5400],
                                VzInsert vs])
              \<and> map vid vs = map (\<lambda>k. ''doc::'' @ shortId sid 20 @ ''::'' @ shortId fn 20 @ ''::'' @ k)
                                 [''0'', ''1'', ''2'', ''3'']
              \<and> distinct (map vid vs)
              \<and> map vvalues vs = map Some es
              \<and> (\<forall>v \<in> set vs. namespace v = sid)))"
proof (intro conjI allI impI)
  show ch: "chunkLoop c 0 [] = Some [slice c 0 1500, slice c 1300 2800, slice c 2600 4100, slice c 3900 5400]"
    using assms by (rule chunks_4000)
  fix es
  define chunks where "chunks = [slice c 0 1500, slice c 1300 2800, slice c 2600 4100, slice c 3900 5400]"
  assume "ai_embed e (tr @ [AiEmbed [slice c 0 1500, slice c 1300 2800, slice c 2600 4100, slice c 3900 5400]]) = Inr es
             \<and> length es = 4"
  then have es: "ai_embed e (tr @ [AiEmbed chunks]) = Inr es" and len: "length es = 4"
    by (simp_all add: chunks_def)
  define vs where "vs = map (documentVector sid fn chunks 0) (enumerate 0 es)"
  have "\<exists>res. batchLoop e sid fn chunks 0 tr = (res, tr @ [AiEmbed chunks, VzInsert vs])"
    unfolding vs_def
    by (rule batchLoop_single [OF _ _ _ es]) (simp_all add: chunks_def slice_def min_def)
  then obtain res where run: "storeDocument e sid fn c tr = Some (res, tr @ [AiEmbed chunks, VzInsert vs])"
    using ch by (auto simp: storeDocument_def chunks_def)
  have ids: "map vid vs = map (\<lambda>k. ''doc::'' @ shortId sid 20 @ ''::'' @ shortId fn 20 @ ''::'' @ k)
                                 [''0'', ''1'', ''2'', ''3'']"
    unfolding vs_def using len by (rule vectors4_ids)
  have dist: "distinct (map vid vs)"
    unfolding ids by simp
  have vals: "map vvalues vs = map Some es"
    unfolding vs_def by (rule vectors_values)
  have ns: "\<forall>v \<in> set vs. namespace v = sid"
    unfolding vs_def using vectors_namespace by blast
  show "\<exists>res vs. storeDocument e sid fn c tr =
                Some (res, tr @ [AiEmbed [slice c 0 1500, slice c 1300 2800, slice c 2600 4100, slice c 3900 5400],
                                VzInsert vs])
              \<and> map vid vs = map (\<lambda>k. ''doc::'' @ shortId sid 20 @ ''::'' @ shortId fn 20 @ ''::'' @ k)
                                 [''0'', ''1'', ''2'', ''3'']
              \<and> distinct (map vid vs)
              \<and> map vvalues vs = map Some es
              \<and> (\<forall>v \<in> set vs. namespace v = sid)"
    using run ids dist vals ns unfolding chunks_def by blast
qed

text \<open>The theorem at a document of 4000 letters \<open>a\<close>, in the environment with four embeddings.\<close>

theorem storeDocument_4000_chars_witness:
  "chunkLoop (replicate 4000 (CHR ''a'')) 0 []
     = Some [replicate 1500 (CHR ''a''), replicate 1500 (CHR ''a''),
             replicate 1400 (CHR ''a''), replicate 100 (CHR ''a'')]
   \<and> (\<exists>res vs. storeDocument fourEnv ''c1'' ''notes.txt'' (replicate 4000 (CHR ''a'')) []
         = Some (res, [AiEmbed [replicate 1500 (CHR ''a''), replicate 1500 (CHR ''a''),
                                replicate 1400 (CHR ''a''), replicate 100 (CHR ''a'')],
                       VzInsert vs])
       \<and> map vid vs = [''doc::c1::notes.txt::0'', ''doc::c1::notes.txt::1'',
                        ''doc::c1::notes.txt::2'', ''doc::c1::notes.txt::3''])"
proof -
  have len: "length (replicate 4000 (CHR ''a'')) = 4000"
    by simp
  have e: "ai_embed fourEnv tr = Inr [[0], [1], [2], [3]]" for tr
    by (simp add: fourEnv_def)
  have four: "length [[0], [1], [2], [3::rat]] = 4"
    by simp
  have w: "[slice (replicate 4000 (CHR ''a'')) 0 1500, slice (replicate 4000 (CHR ''a'')) 1300 2800,
            slice (replicate 4000 (CHR ''a'')) 2600 4100, slice (replicate 4000 (CHR ''a'')) 3900 5400]
         = [replicate 1500 (CHR ''a''), replicate 1500 (CHR ''a''),
            replicate 1400 (CHR ''a''), replicate 100 (CHR ''a'')]"
    by (simp add: slice_def)
  have i: "map (\<lambda>k. ''doc::'' @ shortId ''c1'' 20 @ ''::'' @ shortId ''notes.txt'' 20 @ ''::'' @ k)
               [''0'', ''1'', ''2'', ''3'']
         = [''doc::c1::notes.txt::0'', ''doc::c1::notes.txt::1'',
            ''doc::c1::notes.txt::2'', ''doc::c1::notes.txt::3'']"
    by (simp add: shortId_def)
  note t = storeDocument_4000_chars [OF len, of fourEnv "[]" "''c1''" "''notes.txt''", unfolded w i]
  have "\<exists>res vs. storeDocument fourEnv ''c1'' ''notes.txt'' (replicate 4000 (CHR ''a'')) []
         = Some (res, [] @ [AiEmbed [replicate 1500 (CHR ''a''), replicate 1500 (CHR ''a''),
                                replicate 1400 (CHR ''a''), replicate 100 (CHR ''a'')],
                       VzInsert vs])
       \<and> map vid vs = [''doc::c1::notes.txt::0'', ''doc::c1::notes.txt::1'',
                        ''doc::c1::notes.txt::2'', ''doc::c1::notes.txt::3'']
       \<and> distinct (map vid vs)
       \<and> map vvalues vs = map Some [[0], [1], [2], [3]]
       \<and> (\<forall>v \<in> set vs. namespace v = ''c1'')"
    using t e four by blast
  then have "\<exists>res vs. storeDocument fourEnv ''c1'' ''notes.txt'' (replicate 4000 (CHR ''a'')) []
         = Some (res, [AiEmbed [replicate 1500 (CHR ''a''), replicate 1500 (CHR ''a''),
                                replicate 1400 (CHR ''a''), replicate 100 (CHR ''a'')],
                       VzInsert vs])
       \<and> map vid vs = [''doc::c1::notes.txt::0'', ''doc::c1::notes.txt::1'',
                        ''doc::c1::notes.txt::2'', ''doc::c1::notes.txt::3'']"
    by auto
  then show ?thesis using t by blast
qed

text \<open>
  C5 as stated fails: a document of 4000 characters gives four windows, not three; the
  fourth starts at the offset 3900 and holds the last 100 characters.
\<close>

theorem storeDocument_three_windows_counterexample:
  "map_option (map length) (chunkLoop (replicate 4000 (CHR ''a'')) 0 []) = Some [1500, 1500, 1400, 100]
   \<and> map_option length (chunkLoop (replicate 4000 (CHR ''a'')) 0 []) \<noteq> Some 3"
  by (simp add: chunks_4000 slice_def)

subsection \<open>C6: the framed token count\<close>

text \<open>
  C6, as amended. For every message, \<open>countMessageTokens\<close> is \<open>countTokens\<close> of the content
  plus 4, and \<open>countTokens\<close> is the number of tokens of the whole content, with no
  truncation. With the library's tokenizer \<open>countTokens\<close> of a text is the number of its
  byte-pair tokens plus 2, for the begin-of-text and the end-of-text token; so for the
  empty string \<open>countTokens\<close> returns 2, and \<open>countMessageTokens\<close> of a message with empty
  content returns 6.
\<close>

theorem countMessageTokens_framing:
  "countMessageTokens enc m = countTokens enc (content m) + 4
   \<and> countTokens enc (content m) = int (length (enc (content m)))
   \<and> countTokens (llama3Encode bpe) text = int (length (if text = [] then [] else bpe text)) + 2
   \<and> countTokens (llama3Encode bpe) [] = 2
   \<and> countMessageTokens (llama3Encode bpe) \<lparr>role = r, content = []\<rparr> = 6"
  by (simp add: countMessageTokens_def countTokens_def PER_MESSAGE_OVERHEAD_def llama3Encode_def)

text \<open>
  C6 as stated fails at the empty string: \<open>countTokens\<close> returns 2 and not 0, and
  \<open>countMessageTokens\<close> returns 6 and not 4.
\<close>

theorem empty_content_counterexample:
  "countTokens (llama3Encode charTokenizer) [] = 2
   \<and> countTokens (llama3Encode charTokenizer) [] \<noteq> 0
   \<and> countMessageTokens (llama3Encode charTokenizer) \<lparr>role = User, content = []\<rparr> = 6
   \<and> countMessageTokens (llama3Encode charTokenizer) \<lparr>role = User, content = []\<rparr> \<noteq> 4"
  by (simp add: countMessageTokens_def countTokens_def PER_MESSAGE_OVERHEAD_def llama3Encode_def)

subsection \<open>C7: the cap of the namespace clearing\<close>

text \<open>
  C7. Take an index whose ids are pairwise different, and a vector service that answers
  the query of \<open>clearSessionVectors\<close> and of \<open>clearFacts\<close> (top-K 100) with at most 100
  matches. One call asks the index to delete at most 100 ids; whichever namespace is
  counted, after the deletion of these ids it still holds at least its former number of
  records minus 100, so that a namespace with more than 100 records is not emptied by one
  call.
\<close>

theorem clear_removes_at_most_100:
  assumes "uniqueIds idx"
    and "answersAtMost e tr (VzQuery (Some (replicate 768 0)) 100 False sid) 100"
    and "answersAtMost e tr (VzQuery (Some (replicate 768 0)) 100 False FACTS_NAMESPACE) 100"
  shows "length (deleteRequests (drop (length tr) (clearSessionVectors e sid tr))) \<le> 100
       \<and> namespaceCount ns idx - 100
           \<le> namespaceCount ns (deleteByIds (deleteRequests (drop (length tr) (clearSessionVectors e sid tr))) idx)
       \<and> (100 < namespaceCount ns idx
            \<longrightarrow> 0 < namespaceCount ns (deleteByIds (deleteRequests (drop (length tr) (clearSessionVectors e sid tr))) idx))
       \<and> length (deleteRequests (drop (length tr) (clearFacts e tr))) \<le> 100
       \<and> namespaceCount ns idx - 100
           \<le> namespaceCount ns (deleteByIds (deleteRequests (drop (length tr) (clearFacts e tr))) idx)
       \<and> (100 < namespaceCount ns idx
            \<longrightarrow> 0 < namespaceCount ns (deleteByIds (deleteRequests (drop (length tr) (clearFacts e tr))) idx))"
  using namespaceCount_delete [OF assms(1), of ns "deleteRequests (drop (length tr) (clearSessionVectors e sid tr))"]
    namespaceCount_delete [OF assms(1), of ns "deleteRequests (drop (length tr) (clearFacts e tr))"]
    clearSessionVectors_requests [OF assms(2)] clearFacts_requests [OF assms(3)]
  by (intro conjI impI) linarith+

text \<open>
  The theorem at the index of 102 records of the namespace \<open>s-1\<close>, with a service that
  answers with 100 matches: at least two records are left.
\<close>

theorem clear_removes_at_most_100_witness:
  "uniqueIds bigIndex
   \<and> namespaceCount ''s-1'' bigIndex = 102
   \<and> 2 \<le> namespaceCount ''s-1''
            (deleteByIds (deleteRequests (drop (length []) (clearSessionVectors hundredEnv ''s-1'' []))) bigIndex)
   \<and> 2 \<le> namespaceCount ''s-1''
            (deleteByIds (deleteRequests (drop (length []) (clearFacts hundredEnv []))) bigIndex)"
proof -
  have inj: "inj_on (\<lambda>k. replicate (Suc k) (CHR ''x'')) (set [0..<102])"
    by (rule inj_onI) (metis length_replicate nat.inject)
  have "map vid bigIndex = map (\<lambda>k. replicate (Suc k) (CHR ''x'')) [0..<102]"
    by (simp add: bigIndex_def)
  then have u: "uniqueIds bigIndex"
    using inj by (simp add: uniqueIds_def distinct_map)
  have c: "namespaceCount ''s-1'' bigIndex = 102"
    by (simp add: namespaceCount_def bigIndex_def)
  have q: "answersAtMost hundredEnv [] (VzQuery (Some (replicate 768 0)) 100 False ns) 100" for ns
    by (simp add: answersAtMost_def hundredEnv_def firstHundred_def)
  show ?thesis
    using clear_removes_at_most_100 [OF u q q, of "''s-1''" "''s-1''"] u c by simp
qed

subsection \<open>C8: the recalled-memory block\<close>

text \<open>
  C8. Every match kept for the recalled-memory block is one of the matches that the query
  returned, has a score strictly below 0.99 and a content different from the submitted
  message; a returned match with a score of 0.99 or more, or with the content of the
  submitted message, is not kept; and the block is made of the lines of the kept matches
  and of nothing else (it is empty when the query fails).
\<close>

theorem recalled_block_excludes_self:
  "(\<forall>r \<in> set (filtered msg relevant). r \<in> set relevant \<and> r_score r < 99 / 100 \<and> r_content r \<noteq> msg)
   \<and> (\<forall>r \<in> set relevant. 99 / 100 \<le> r_score r \<or> r_content r = msg \<longrightarrow> r \<notin> set (filtered msg relevant))
   \<and> fst (recall e doId msg tr) =
       (case fst (queryRelevantMessages e doId msg RAG_TOP_K tr) of
          Inl err \<Rightarrow> []
        | Inr relevant \<Rightarrow> join NL (map recalledLine (filtered msg relevant)))"
  by (auto simp: filtered_def recall_def recalledContextOf_def split: prod.splits sum.splits)

text \<open>
  The theorem at the message \<open>Hi\<close> and three matches: the message itself with score 1, a
  near-identical text with score 0.995, and an older message with score 0.5.
\<close>

theorem recalled_block_excludes_self_witness:
  "\<lparr>r_role = ''user'', r_content = ''My name is Alex'', r_score = 1 / 2\<rparr>
     \<in> set (filtered ''Hi''
          [\<lparr>r_role = ''user'', r_content = ''Hi'', r_score = 1\<rparr>,
           \<lparr>r_role = ''assistant'', r_content = ''Hi!'', r_score = 995 / 1000\<rparr>,
           \<lparr>r_role = ''user'', r_content = ''My name is Alex'', r_score = 1 / 2\<rparr>])
   \<and> \<lparr>r_role = ''user'', r_content = ''Hi'', r_score = 1\<rparr>
     \<notin> set (filtered ''Hi''
          [\<lparr>r_role = ''user'', r_content = ''Hi'', r_score = 1\<rparr>,
           \<lparr>r_role = ''assistant'', r_content = ''Hi!'', r_score = 995 / 1000\<rparr>,
           \<lparr>r_role = ''user'', r_content = ''My name is Alex'', r_score = 1 / 2\<rparr>])
   \<and> \<lparr>r_role = ''assistant'', r_content = ''Hi!'', r_score = 995 / 1000\<rparr>
     \<notin> set (filtered ''Hi''
          [\<lparr>r_role = ''user'', r_content = ''Hi'', r_score = 1\<rparr>,
           \<lparr>r_role = ''assistant'', r_content = ''Hi!'', r_score = 995 / 1000\<rparr>,
           \<lparr>r_role = ''user'', r_content = ''My name is Alex'', r_score = 1 / 2\<rparr>])"
proof -
  define rel where "rel = [\<lparr>r_role = ''user'', r_content = ''Hi'', r_score = 1\<rparr>,
           \<lparr>r_role = ''assistant'', r_content = ''Hi!'', r_score = 995 / 1000\<rparr>,
           \<lparr>r_role = ''user'', r_content = ''My name is Alex'', r_score = 1 / 2\<rparr>]"
  have k: "\<lparr>r_role = ''user'', r_content = ''My name is Alex'', r_score = 1 / 2\<rparr> \<in> set (filtered ''Hi'' rel)"
    by (simp add: rel_def filtered_def)
  have a: "\<lparr>r_role = ''user'', r_content = ''Hi'', r_score = 1\<rparr> \<in> set rel"
    and b: "\<lparr>r_role = ''assistant'', r_content = ''Hi!'', r_score = 995 / 1000\<rparr> \<in> set rel"
    by (simp_all add: rel_def)
  have d: "\<forall>r \<in> set rel. 99 / 100 \<le> r_score r \<or> r_content r = ''Hi'' \<longrightarrow> r \<notin> set (filtered ''Hi'' rel)"
    by (rule recalled_block_excludes_self [of "''Hi''" rel quietEnv "''do-1''" "[]",
          THEN conjunct2, THEN conjunct1])
  have "\<lparr>r_role = ''user'', r_content = ''Hi'', r_score = 1\<rparr> \<notin> set (filtered ''Hi'' rel)"
    using bspec [OF d a] by simp
  moreover have "\<lparr>r_role = ''assistant'', r_content = ''Hi!'', r_score = 995 / 1000\<rparr> \<notin> set (filtered ''Hi'' rel)"
    using bspec [OF d b] by simp
  ultimately show ?thesis using k unfolding rel_def by blast
qed

subsection \<open>C9: termination of the chunking loop\<close>

text \<open>
  C9. The overlap 200 is below the window size 1500, the stride is 1300, and for every
  content the chunking loop of \<open>storeDocument\<close> ends: it returns a list of windows, one for
  every started stride of 1300 characters, and \<open>storeDocument\<close> itself returns.
\<close>

theorem chunking_terminates:
  "OVERLAP < CHUNK_SIZE \<and> CHUNK_SIZE - OVERLAP = 1300
   \<and> (\<exists>chunks. chunkLoop c 0 [] = Some chunks \<and> length chunks = (length c + 1299) div 1300)
   \<and> (\<exists>r. storeDocument e sid fn c tr = Some r)"
  by (simp add: chunkLoop_eq storeDocument_def CHUNK_SIZE_def OVERLAP_def)

subsection \<open>C10: the fallback reply\<close>

text \<open>
  C10. When the call of the chat model returns with no response text, missing or empty,
  \<open>handleTurn\<close> answers with a reply and not with an error; the reply is the fixed text
  \<open>Sorry, I could not generate a response.\<close>; this text is appended to the in-memory list
  as the assistant message. After the call of the model the turn makes the calls it makes
  for any reply: it inserts the text into the database as an assistant message, sends it
  to the embedding model, and, when the embedding model answers, inserts into the vector
  index one record of the session's namespace that carries the embedding, the role
  \<open>assistant\<close>, the text, and the id built from the index of the appended message.
\<close>

theorem empty_reply_falls_back:
  assumes "gatherContext e doId sid msg st tr = (st1, sys, rc, fc, tr4)"
    and "ai_chat e (tr4 @ [AiChat (finalMessagesOf enc sys rc fc (messages st1)) MAX_RESPONSE_TOKENS]) = Inr a"
    and "a = None \<or> a = Some []"
  shows "handleTurn e enc doId sid msg st tr =
           (ChatReply ''Sorry, I could not generate a response.'' (Suc (length (messages st1))),
            st1\<lparr>messages := messages st1
                   @ [\<lparr>role = Assistant, content = ''Sorry, I could not generate a response.''\<rparr>]\<rparr>,
            tr4 @ [AiChat (finalMessagesOf enc sys rc fc (messages st1)) MAX_RESPONSE_TOKENS,
                   DbInsertMessage sid ''assistant'' ''Sorry, I could not generate a response.'',
                   AiEmbed [''Sorry, I could not generate a response.'']]
            @ (case ai_embed e
                      (tr4 @ [AiChat (finalMessagesOf enc sys rc fc (messages st1)) MAX_RESPONSE_TOKENS,
                              DbInsertMessage sid ''assistant'' ''Sorry, I could not generate a response.'',
                              AiEmbed [''Sorry, I could not generate a response.'']]) of
                 Inl err \<Rightarrow> []
               | Inr data \<Rightarrow>
                   [VzInsert [\<lparr>vid = shortId doId 48 @ ''::'' @ showNat (length (messages st1)),
                               vvalues = (case data of [] \<Rightarrow> None | v # vs \<Rightarrow> Some v),
                               namespace = doId,
                               vmetadata = \<lparr>md_role = ''assistant'',
                                            md_content = ''Sorry, I could not generate a response.''\<rparr>\<rparr>]]))"
proof -
  define fb where "fb = ''Sorry, I could not generate a response.''"
  define call where "call = AiChat (finalMessagesOf enc sys rc fc (messages st1)) MAX_RESPONSE_TOKENS"
  have am: "assistantMessageOf a = fb"
    using assms(3) by (auto simp: assistantMessageOf_def FALLBACK_REPLY_def fb_def)
  have sl: "slice fb 0 2000 = fb" "slice fb 0 8000 = fb"
    unfolding fb_def by (rule fallback_slices)+
  have run: "handleTurn e enc doId sid msg st tr =
           (ChatReply fb (Suc (length (messages st1))),
            st1\<lparr>messages := messages st1 @ [\<lparr>role = Assistant, content = fb\<rparr>]\<rparr>,
            snd (storeMessage e doId (length (messages st1)) ''assistant'' fb
                   (tr4 @ [call, DbInsertMessage sid ''assistant'' fb])))"
    using assms(1,2) am unfolding call_def by (simp add: handleTurn_def perform_def Let_def)
  have "snd (storeMessage e doId (length (messages st1)) ''assistant'' fb
                   (tr4 @ [call, DbInsertMessage sid ''assistant'' fb]))
      = tr4 @ [call, DbInsertMessage sid ''assistant'' fb, AiEmbed [fb]]
        @ (case ai_embed e (tr4 @ [call, DbInsertMessage sid ''assistant'' fb, AiEmbed [fb]]) of
             Inl err \<Rightarrow> []
           | Inr data \<Rightarrow>
               [VzInsert [\<lparr>vid = shortId doId 48 @ ''::'' @ showNat (length (messages st1)),
                           vvalues = (case data of [] \<Rightarrow> None | v # vs \<Rightarrow> Some v),
                           namespace = doId,
                           vmetadata = \<lparr>md_role = ''assistant'', md_content = fb\<rparr>\<rparr>]])"
    by (simp add: storeMessage_exact sl split: sum.splits)
  then show ?thesis using run unfolding fb_def call_def by simp
qed

text \<open>
  The theorem at the first turn of a new session, in the environment where the model is
  silent and every other service answers: the turn ends with the database insertion, the
  embedding call and the vector insertion of the fallback text.
\<close>

theorem empty_reply_falls_back_witness:
  "fst (handleTurn silentEnv charTokenizer ''do-1'' ''s-1'' ''Hi'' newSession [])
     = ChatReply ''Sorry, I could not generate a response.'' 2
   \<and> messages (fst (snd (handleTurn silentEnv charTokenizer ''do-1'' ''s-1'' ''Hi'' newSession [])))
     = [\<lparr>role = User, content = ''Hi''\<rparr>,
        \<lparr>role = Assistant, content = ''Sorry, I could not generate a response.''\<rparr>]
   \<and> (\<exists>tr4 call. snd (snd (handleTurn silentEnv charTokenizer ''do-1'' ''s-1'' ''Hi'' newSession []))
        = tr4 @ [call,
                 DbInsertMessage ''s-1'' ''assistant'' ''Sorry, I could not generate a response.'',
                 AiEmbed [''Sorry, I could not generate a response.''],
                 VzInsert [\<lparr>vid = ''do-1::1'', vvalues = Some [0], namespace = ''do-1'',
                             vmetadata = \<lparr>md_role = ''assistant'',
                                          md_content = ''Sorry, I could not generate a response.''\<rparr>\<rparr>]])"
proof -
  obtain st1 sys rc fc tr4 where
    g: "gatherContext silentEnv ''do-1'' ''s-1'' ''Hi'' newSession [] = (st1, sys, rc, fc, tr4)"
    by (metis prod_cases5)
  have a: "ai_chat silentEnv
             (tr4 @ [AiChat (finalMessagesOf charTokenizer sys rc fc (messages st1)) MAX_RESPONSE_TOKENS])
           = Inr None"
    by (simp add: silentEnv_def)
  have l: "messages (fst (ensureLoaded silentEnv ''s-1'' newSession [])) = []"
    by code_simp
  have m: "messages st1 = [\<lparr>role = User, content = ''Hi''\<rparr>]"
    using gatherContext_session [OF g] by (simp add: l)
  have em: "ai_embed silentEnv t = Inr [[0]]" for t
    by (simp add: silentEnv_def quietEnv_def)
  have sn: "showNat (Suc 0) = ''1''"
    by (simp add: showNat_digit digitChar_def)
  have sh: "shortId ''do-1'' 48 = ''do-1''"
    by (simp add: shortId_def)
  note t = empty_reply_falls_back [OF g a, unfolded m em, simplified]
  show ?thesis
    unfolding t by (simp add: sn sh)
qed

end
